theory Spec2Isabelle
  imports Complex_Main
begin

section \<open>Numbers, errors and arrays\<close>

text \<open>
  The analysis scripts compute on NumPy arrays of floating-point numbers.  The embedding
  reads every float as a real number: a stream is a \<open>real list\<close>, a 2-D array (chroma,
  contrast, MFCC) is the list of its rows.  Exceptions of Python, NumPy and scikit-learn are
  values of \<open>error\<close>; a computation that can raise returns \<open>error + 'a\<close>, \<open>Inl\<close> being the
  exception.  \<open>AudioLoadError\<close> is the error the specification names; no statement of the
  scripts raises it.
\<close>

datatype error =
    SystemExit int
  | ValueError
  | IndexError
  | DecodeError
  | AudioLoadError

definition bnd :: "error + 'a \<Rightarrow> ('a \<Rightarrow> error + 'b) \<Rightarrow> error + 'b" where
  "bnd m f = (case m of Inl e \<Rightarrow> Inl e | Inr x \<Rightarrow> f x)"

fun mapM :: "('a \<Rightarrow> error + 'b) \<Rightarrow> 'a list \<Rightarrow> error + 'b list" where
  "mapM f [] = Inr []"
| "mapM f (x # xs) = bnd (f x) (\<lambda>y. bnd (mapM f xs) (\<lambda>ys. Inr (y # ys)))"

definition SR :: nat where
  "SR = 22050"

definition HOP_LENGTH :: nat where
  "HOP_LENGTH = 735"

definition FPS :: nat where
  "FPS = 30"

text \<open>
  Python's \<open>round(x, ndigits)\<close> on a real number: the nearest multiple of
  \<open>10 ^ - ndigits\<close>, a tie going to the even neighbour.
\<close>

definition round_half_even :: "real \<Rightarrow> int" where
  "round_half_even r =
     (let f = \<lfloor>r\<rfloor>; d = r - of_int f
      in if d < 1 / 2 then f else if 1 / 2 < d then f + 1 else if even f then f else f + 1)"

definition py_round :: "real \<Rightarrow> nat \<Rightarrow> real" where
  "py_round x ndigits = of_int (round_half_even (x * 10 ^ ndigits)) / 10 ^ ndigits"

text \<open>\<open>arr.min()\<close> and \<open>arr.max()\<close>: NumPy raises ValueError on an array without elements.\<close>

fun amin :: "real list \<Rightarrow> error + real" where
  "amin [] = Inl ValueError"
| "amin (x # xs) = Inr (fold min xs x)"

fun amax :: "real list \<Rightarrow> error + real" where
  "amax [] = Inl ValueError"
| "amax (x # xs) = Inr (fold max xs x)"

text \<open>
  \<open>arr.mean()\<close>: on an array without elements NumPy warns and yields NaN, which is
  \<open>None\<close> here.
\<close>

definition np_mean :: "real list \<Rightarrow> real option" where
  "np_mean xs = (if xs = [] then None else Some (sum_list xs / real (length xs)))"

text \<open>The slice \<open>arr[lo:hi]\<close> for indices that are not negative.\<close>

definition slice :: "'a list \<Rightarrow> nat \<Rightarrow> nat \<Rightarrow> 'a list" where
  "slice xs lo hi = take (hi - lo) (drop lo xs)"

text \<open>\<open>arr[i]\<close> for an index that is not negative: IndexError out of range.\<close>

definition get :: "'a list \<Rightarrow> nat \<Rightarrow> error + 'a" where
  "get xs i = (if i < length xs then Inr (xs ! i) else Inl IndexError)"

definition get2 :: "'a list list \<Rightarrow> nat \<Rightarrow> nat \<Rightarrow> error + 'a" where
  "get2 a c i = bnd (get a c) (\<lambda>row. get row i)"

text \<open>
  \<open>arr.shape[1]\<close> of a 2-D array given by its rows.  The 2-D arrays of the scripts have
  12, 7 or 13 rows; an array of no row has no column count in this representation and
  gets 0.
\<close>

definition shape1 :: "'a list list \<Rightarrow> nat" where
  "shape1 a = (case a of [] \<Rightarrow> 0 | row # _ \<Rightarrow> length row)"

definition rectangular :: "'a list list \<Rightarrow> bool" where
  "rectangular a = (\<forall>row \<in> set a. length row = shape1 a)"

section \<open>The normalizer\<close>

definition normalize :: "real list \<Rightarrow> error + real list" where
  "normalize arr =
     bnd (amin arr) (\<lambda>mn. bnd (amax arr) (\<lambda>mx.
       if mx - mn < 1 / 10 ^ 10 then Inr (map (\<lambda>_. 0) arr)
       else Inr (map (\<lambda>x. (x - mn) / (mx - mn)) arr)))"

section \<open>The frame aligner\<close>

text \<open>
  \<open>np.pad(arr, (0, k), mode="edge")\<close>: \<open>k\<close> copies of the last element are appended;
  NumPy raises ValueError when an axis without elements is to be extended in this mode.
\<close>

definition np_pad_edge :: "'a list \<Rightarrow> nat \<Rightarrow> error + 'a list" where
  "np_pad_edge arr k =
     (if arr = [] \<and> 0 < k then Inl ValueError else Inr (arr @ replicate k (last arr)))"

definition pad_or_trim :: "'a list \<Rightarrow> nat \<Rightarrow> error + 'a list" where
  "pad_or_trim arr len =
     (if len \<le> length arr then Inr (take len arr)
      else np_pad_edge arr (len - length arr))"

definition pad_or_trim_2d :: "'a list list \<Rightarrow> nat \<Rightarrow> error + 'a list list" where
  "pad_or_trim_2d arr len =
     (if len \<le> shape1 arr then Inr (map (take len) arr)
      else mapM (\<lambda>row. np_pad_edge row (len - shape1 arr)) arr)"

text \<open>
  The frame aligner in the specification's words: a stream longer than the canonical
  count is truncated from the end, a shorter one is extended by repeating its last value.
\<close>

definition spec_reconcile :: "'a list \<Rightarrow> nat \<Rightarrow> 'a list" where
  "spec_reconcile xs n =
     (if n \<le> length xs then take n xs else xs @ replicate (n - length xs) (last xs))"

section \<open>The section detector\<close>

text \<open>
  \<open>detect_sections\<close> averages the MFCC matrix over windows of \<open>seg_hop\<close> frames, has
  scikit-learn cluster the windows and merges runs of equal labels into sections.

  The clustering routine is a library: \<open>agglo n_clusters X\<close> stands for the labels that
  \<open>AgglomerativeClustering(n_clusters, connectivity).fit_predict(X)\<close> assigns to the rows
  of \<open>X\<close> (the chain connectivity is determined by the number of rows).  The estimator
  validates its input with \<open>ensure_min_samples=2\<close> and raises ValueError on fewer rows;
  \<open>fit_predict\<close> writes that check out.
\<close>

type_synonym clusterer = "nat \<Rightarrow> real option list list \<Rightarrow> nat list"

definition fit_predict :: "clusterer \<Rightarrow> nat \<Rightarrow> real option list list \<Rightarrow> error + nat list" where
  "fit_predict agglo n_clusters X =
     (if length X < 2 then Inl ValueError else Inr (agglo n_clusters X))"

definition seg_hop :: nat where
  "seg_hop = 5 * FPS"

definition n_segs_of :: "nat \<Rightarrow> nat" where
  "n_segs_of n_frames = max 1 (n_frames div seg_hop)"

text \<open>
  One row of \<open>seg_features\<close>: the mean of every MFCC coefficient over the window, or the
  zero row of \<open>np.zeros\<close> when the window starts beyond the MFCC frames.
\<close>

definition seg_feature :: "real list list \<Rightarrow> nat \<Rightarrow> real option list" where
  "seg_feature mfcc i =
     (let seg_start = i * seg_hop;
          seg_end = min ((i + 1) * seg_hop) (shape1 mfcc)
      in if seg_start < shape1 mfcc
         then map (\<lambda>row. np_mean (slice row seg_start seg_end)) mfcc
         else replicate (length mfcc) (Some 0))"

definition n_clusters_of :: "nat \<Rightarrow> nat" where
  "n_clusters_of n_segs =
     (let n_clusters = min (max 3 (n_segs div 4)) 12
      in if n_segs \<le> n_clusters then max 2 (n_segs - 1) else n_clusters)"

fun str_nat :: "nat \<Rightarrow> string" where
  "str_nat n =
     (if n < 10 then [char_of (48 + n)]
      else str_nat (n div 10) @ [char_of (48 + n mod 10)])"

record section_rec =
  frameStart :: nat
  frameEnd :: nat
  label :: string
  energy :: string
  avgEnergy :: "real option"

text \<open>
  The dictionary appended for one section; \<open>k\<close> is \<open>len(sections)\<close> at that moment.  A
  comparison with NaN is false, and \<open>round\<close> of NaN is NaN.
\<close>

definition mk_section :: "real list \<Rightarrow> nat \<Rightarrow> nat \<Rightarrow> nat \<Rightarrow> section_rec" where
  "mk_section rms_norm frame_start frame_end k =
     (let avg_energy =
            (if frame_start < frame_end then np_mean (slice rms_norm frame_start frame_end)
             else Some 0);
          energy_label =
            (case avg_energy of
               None \<Rightarrow> ''low''
             | Some a \<Rightarrow> if 1 / 2 < a then ''high'' else if 1 / 4 < a then ''mid'' else ''low'')
      in \<lparr>frameStart = frame_start, frameEnd = frame_end,
          label = ''section_'' @ str_nat k, energy = energy_label,
          avgEnergy = map_option (\<lambda>a. py_round a 3) avg_energy\<rparr>)"

text \<open>
  The loop \<open>for i in range(1, len(labels))\<close>: the labels from index \<open>i\<close> on, the sections
  closed so far, the current label and the window where the open section starts.
\<close>

fun merge_loop ::
  "real list \<Rightarrow> nat \<Rightarrow> nat list \<Rightarrow> nat \<Rightarrow> section_rec list \<Rightarrow> nat \<Rightarrow> nat \<Rightarrow> section_rec list \<times> nat" where
  "merge_loop rms_norm n_frames [] i sections current_label section_start =
     (sections, section_start)"
| "merge_loop rms_norm n_frames (l # ls) i sections current_label section_start =
     (if l \<noteq> current_label
      then merge_loop rms_norm n_frames ls (i + 1)
             (sections @
                [mk_section rms_norm (section_start * seg_hop) (min (i * seg_hop) n_frames)
                   (length sections)])
             l i
      else merge_loop rms_norm n_frames ls (i + 1) sections current_label section_start)"

definition detect_sections ::
  "clusterer \<Rightarrow> real list list \<Rightarrow> nat \<Rightarrow> real list \<Rightarrow> error + section_rec list" where
  "detect_sections agglo mfcc n_frames rms_norm =
     (let n_segs = n_segs_of n_frames;
          seg_features = map (seg_feature mfcc) [0..<n_segs];
          n_clusters = n_clusters_of n_segs
      in bnd (fit_predict agglo n_clusters seg_features) (\<lambda>labels.
           case labels of
             [] \<Rightarrow> Inl IndexError
           | l0 # ls \<Rightarrow>
               (case merge_loop rms_norm n_frames ls 1 [] l0 0 of
                  (sections, section_start) \<Rightarrow>
                    Inr (sections @
                           [mk_section rms_norm (section_start * seg_hop) n_frames
                              (length sections)]))))"

text \<open>
  The target cluster count in the specification's words:
  \<open>clamp(round(numWindows / 4), 3, 12)\<close>, reduced to \<open>max(2, numWindows - 1)\<close> when fewer
  windows than target clusters exist.
\<close>

definition spec_n_clusters :: "nat \<Rightarrow> int" where
  "spec_n_clusters numWindows =
     (let target = max 3 (min 12 (round_half_even (real numWindows / 4)))
      in if int numWindows < target then max 2 (int numWindows - 1) else target)"

text \<open>
  \<open>chained a secs b\<close>: the sections start at \<open>a\<close>, each starts where the one before
  ends, none ends before it starts, and the last ends at \<open>b\<close>.
\<close>

fun chained :: "nat \<Rightarrow> section_rec list \<Rightarrow> nat \<Rightarrow> bool" where
  "chained a [] b = (a = b)"
| "chained a (s # ss) b = (frameStart s = a \<and> a \<le> frameEnd s \<and> chained (frameEnd s) ss b)"

text \<open>What the data model asks of the sections of a track of \<open>n_total\<close> frames.\<close>

definition contiguous_cover :: "section_rec list \<Rightarrow> nat \<Rightarrow> bool" where
  "contiguous_cover secs n_total =
     (secs \<noteq> [] \<and>
      sorted (map frameStart secs) \<and>
      frameStart (hd secs) = 0 \<and>
      (\<forall>i. Suc i < length secs \<longrightarrow> frameStart (secs ! Suc i) = frameEnd (secs ! i)) \<and>
      frameEnd (last secs) = n_total)"

section \<open>The single-track pipeline\<close>

text \<open>
  What librosa computes from a decoded file: the length of the waveform \<open>y\<close> and the
  feature arrays at their native frame counts.  A file of the audio directory is either
  undecodable (\<open>librosa.load\<close> raises) or decodes to such features.
\<close>

record features =
  y_len :: nat
  rms_raw :: "real list"
  cent_raw :: "real list"
  onset_env :: "real list"
  tempo_val :: real
  beat_frames :: "nat list"
  S_mag :: "real list list"
  freqs :: "real list"
  chroma_raw :: "real list list"
  contrast_raw :: "real list list"
  flatness_raw :: "real list"
  mfcc :: "real list list"

datatype audio_file = Corrupt | Audio features

text \<open>
  \<open>band_energy\<close>: the column sums of the rows of \<open>S\<close> whose frequency lies in
  \<open>[lo, hi)\<close>.  Indexing by a boolean mask of another length than the axis raises
  IndexError.
\<close>

definition band_energy :: "real list list \<Rightarrow> real list \<Rightarrow> real \<Rightarrow> real \<Rightarrow> error + real list" where
  "band_energy S fs lo hi =
     (let mask = map (\<lambda>f. lo \<le> f \<and> f < hi) fs
      in if \<not> (\<exists>b \<in> set mask. b) then Inr (replicate (shape1 S) 0)
         else if length mask \<noteq> length S then Inl IndexError
         else Inr (map (\<lambda>j. sum_list (map (\<lambda>row. row ! j) (map snd (filter fst (zip mask S)))))
                     [0..<shape1 S]))"

record frame =
  rms :: real
  centroid :: real
  onset :: real
  beat :: bool
  sub :: real
  low :: real
  mid :: real
  high :: real
  chroma :: "real list"
  contrast :: "real list"
  flatness :: real

record meta_rec =
  source :: string
  duration :: real
  fps :: nat
  sr :: nat
  hopLength :: nat
  totalFrames :: nat
  tempo :: real
  sections :: "section_rec list"

record track_analysis =
  meta :: meta_rec
  frames :: "frame list"

text \<open>The ten aligned arrays that the frame loop reads.\<close>

record aligned =
  a_rms :: "real list"
  a_cent :: "real list"
  a_onset :: "real list"
  a_sub :: "real list"
  a_low :: "real list"
  a_mid :: "real list"
  a_high :: "real list"
  a_chroma :: "real list list"
  a_contrast :: "real list list"
  a_flatness :: "real list"

definition n_frames_of :: "nat \<Rightarrow> nat" where
  "n_frames_of len_y = nat \<lceil>real len_y / real SR * real FPS\<rceil>"

text \<open>One pass of \<open>for i in range(n_frames): frames.append({...})\<close>.\<close>

definition frame_at :: "aligned \<Rightarrow> nat list \<Rightarrow> nat \<Rightarrow> error + frame" where
  "frame_at a beats i =
     bnd (get (a_rms a) i) (\<lambda>v_rms.
     bnd (get (a_cent a) i) (\<lambda>v_cent.
     bnd (get (a_onset a) i) (\<lambda>v_onset.
     bnd (get (a_sub a) i) (\<lambda>v_sub.
     bnd (get (a_low a) i) (\<lambda>v_low.
     bnd (get (a_mid a) i) (\<lambda>v_mid.
     bnd (get (a_high a) i) (\<lambda>v_high.
     bnd (mapM (\<lambda>c. bnd (get2 (a_chroma a) c i) (\<lambda>v. Inr (py_round v 3))) [0..<12]) (\<lambda>v_chroma.
     bnd (mapM (\<lambda>c. bnd (get2 (a_contrast a) c i) (\<lambda>v. Inr (py_round v 3))) [0..<7]) (\<lambda>v_contrast.
     bnd (get (a_flatness a) i) (\<lambda>v_flatness.
       Inr \<lparr>rms = py_round v_rms 4, centroid = py_round v_cent 4,
            onset = py_round v_onset 4, beat = (i \<in> set beats),
            sub = py_round v_sub 4, low = py_round v_low 4, mid = py_round v_mid 4,
            high = py_round v_high 4, chroma = v_chroma, contrast = v_contrast,
            flatness = py_round v_flatness 4\<rparr>))))))))))"

text \<open>Normalization of every stream, in the order of the source.\<close>

definition normalize_all :: "features \<Rightarrow> error + aligned" where
  "normalize_all x =
     bnd (normalize (rms_raw x)) (\<lambda>rms_norm.
     bnd (normalize (cent_raw x)) (\<lambda>cent_norm.
     bnd (normalize (onset_env x)) (\<lambda>onset_norm.
     bnd (bnd (band_energy (S_mag x) (freqs x) 0 100) normalize) (\<lambda>v_sub.
     bnd (bnd (band_energy (S_mag x) (freqs x) 100 400) normalize) (\<lambda>v_low.
     bnd (bnd (band_energy (S_mag x) (freqs x) 400 2000) normalize) (\<lambda>v_mid.
     bnd (bnd (band_energy (S_mag x) (freqs x) 2000 8000) normalize) (\<lambda>v_high.
     bnd (mapM normalize (contrast_raw x)) (\<lambda>contrast_norm.
     bnd (normalize (flatness_raw x)) (\<lambda>flatness_norm.
       Inr \<lparr>a_rms = rms_norm, a_cent = cent_norm, a_onset = onset_norm,
            a_sub = v_sub, a_low = v_low, a_mid = v_mid, a_high = v_high,
            a_chroma = chroma_raw x, a_contrast = contrast_norm,
            a_flatness = flatness_norm\<rparr>)))))))))"

text \<open>The ten calls of \<open>pad_or_trim\<close> and \<open>pad_or_trim_2d\<close>, in the order of the source.\<close>

definition align_all :: "aligned \<Rightarrow> nat \<Rightarrow> error + aligned" where
  "align_all a n_frames =
     bnd (pad_or_trim (a_rms a) n_frames) (\<lambda>rms_norm.
     bnd (pad_or_trim (a_cent a) n_frames) (\<lambda>cent_norm.
     bnd (pad_or_trim (a_onset a) n_frames) (\<lambda>onset_norm.
     bnd (pad_or_trim (a_sub a) n_frames) (\<lambda>v_sub.
     bnd (pad_or_trim (a_low a) n_frames) (\<lambda>v_low.
     bnd (pad_or_trim (a_mid a) n_frames) (\<lambda>v_mid.
     bnd (pad_or_trim (a_high a) n_frames) (\<lambda>v_high.
     bnd (pad_or_trim_2d (a_chroma a) n_frames) (\<lambda>v_chroma.
     bnd (pad_or_trim_2d (a_contrast a) n_frames) (\<lambda>contrast_norm.
     bnd (pad_or_trim (a_flatness a) n_frames) (\<lambda>flatness_norm.
       Inr \<lparr>a_rms = rms_norm, a_cent = cent_norm, a_onset = onset_norm,
            a_sub = v_sub, a_low = v_low, a_mid = v_mid, a_high = v_high,
            a_chroma = v_chroma, a_contrast = contrast_norm,
            a_flatness = flatness_norm\<rparr>))))))))))"

text \<open>
  What librosa guarantees of the features of a decoded file: every stream has at least
  one frame, the spectrogram has one row per frequency of \<open>fft_frequencies\<close>, the chroma
  matrix has 12 rows and the contrast matrix 7, and the matrices are rectangular.
\<close>

definition matrix :: "nat \<Rightarrow> 'a list list \<Rightarrow> bool" where
  "matrix n_rows a = (length a = n_rows \<and> rectangular a \<and> 0 < shape1 a)"

definition librosa_shapes :: "features \<Rightarrow> bool" where
  "librosa_shapes x =
     (rms_raw x \<noteq> [] \<and> cent_raw x \<noteq> [] \<and> onset_env x \<noteq> [] \<and> flatness_raw x \<noteq> [] \<and>
      rectangular (S_mag x) \<and> 0 < shape1 (S_mag x) \<and> length (freqs x) = length (S_mag x) \<and>
      matrix 12 (chroma_raw x) \<and> matrix 7 (contrast_raw x))"

text \<open>The same of the normalized streams: what \<open>normalize_all\<close> hands to the aligner.\<close>

definition stream_shapes :: "aligned \<Rightarrow> bool" where
  "stream_shapes a =
     (a_rms a \<noteq> [] \<and> a_cent a \<noteq> [] \<and> a_onset a \<noteq> [] \<and> a_sub a \<noteq> [] \<and>
      a_low a \<noteq> [] \<and> a_mid a \<noteq> [] \<and> a_high a \<noteq> [] \<and> a_flatness a \<noteq> [] \<and>
      matrix 12 (a_chroma a) \<and> matrix 7 (a_contrast a))"

text \<open>The FrameGrid invariant: every aligned stream has \<open>n\<close> entries along the frame axis.\<close>

definition aligned_to :: "nat \<Rightarrow> aligned \<Rightarrow> bool" where
  "aligned_to n a =
     (length (a_rms a) = n \<and> length (a_cent a) = n \<and> length (a_onset a) = n \<and>
      length (a_sub a) = n \<and> length (a_low a) = n \<and> length (a_mid a) = n \<and>
      length (a_high a) = n \<and> length (a_flatness a) = n \<and>
      length (a_chroma a) = 12 \<and> (\<forall>row \<in> set (a_chroma a). length row = n) \<and>
      length (a_contrast a) = 7 \<and> (\<forall>row \<in> set (a_contrast a). length row = n))"

text \<open>\<open>audio_path.name\<close>: the last component of a path.\<close>

definition path_name :: "string \<Rightarrow> string" where
  "path_name p = rev (takeWhile (\<lambda>c. c \<noteq> CHR ''/'') (rev p))"

text \<open>\<open>analyze_track\<close> from \<open>librosa.load\<close> on, for a file that decodes to \<open>x\<close>.\<close>

definition analyze_audio :: "clusterer \<Rightarrow> string \<Rightarrow> features \<Rightarrow> error + track_analysis" where
  "analyze_audio agglo audio_path x =
     (let dur = real (y_len x) / real SR;
          n_frames = n_frames_of (y_len x)
      in bnd (normalize_all x) (\<lambda>normed.
         bnd (align_all normed n_frames) (\<lambda>a.
         bnd (detect_sections agglo (mfcc x) n_frames (a_rms a)) (\<lambda>secs.
         bnd (mapM (frame_at a (beat_frames x)) [0..<n_frames]) (\<lambda>fs.
           Inr \<lparr>meta = \<lparr>source = path_name audio_path, duration = py_round dur 2,
                         fps = FPS, sr = SR, hopLength = HOP_LENGTH,
                         totalFrames = n_frames, tempo = py_round (tempo_val x) 1,
                         sections = secs\<rparr>,
                frames = fs\<rparr>)))))"

text \<open>
  \<open>analyze_track\<close>: the audio directory is a partial map from paths to files, the
  directory of per-track outputs a partial map from paths to analyses.  A missing file
  ends the process with \<open>sys.exit(1)\<close>; the output is written once everything else
  succeeded, and returned.
\<close>

type_synonym audio_dir = "string \<rightharpoonup> audio_file"

type_synonym tracks_dir = "string \<rightharpoonup> track_analysis"

definition analyze_track ::
  "clusterer \<Rightarrow> audio_dir \<Rightarrow> tracks_dir \<Rightarrow> string \<Rightarrow> string \<Rightarrow> error + track_analysis \<times> tracks_dir" where
  "analyze_track agglo audio tracks_files audio_path output_path =
     (case audio audio_path of
        None \<Rightarrow> Inl (SystemExit 1)
      | Some Corrupt \<Rightarrow> Inl DecodeError
      | Some (Audio x) \<Rightarrow>
          bnd (analyze_audio agglo audio_path x) (\<lambda>output.
            Inr (output, tracks_files(output_path \<mapsto> output))))"

section \<open>The show batch runner\<close>

text \<open>
  \<open>main\<close> of the batch script, after the command line is parsed and the audio directory
  resolved: \<open>resume\<close> is the flag \<open>--resume\<close>, the audio directory maps the \<open>audioFile\<close>
  of a song to its file, the tracks directory maps the name of a per-track output file to
  its content.  The lines printed for a song are kept as events.
\<close>

record song =
  trackId :: string
  title :: string
  audioFile :: string

record setlist =
  date :: string
  songs :: "song list"

record timeline_entry =
  e_trackId :: string
  globalFrameStart :: nat
  globalFrameEnd :: nat
  e_totalFrames :: nat
  missing :: bool

record show_timeline =
  tl_date :: string
  tl_totalFrames :: nat
  totalDuration :: real
  tracks :: "timeline_entry list"

datatype event = SKIP string | RESUME string | ANALYZING string

record batch_state =
  timeline_tracks :: "timeline_entry list"
  global_offset :: nat
  total_duration :: real
  tracks_files :: tracks_dir
  printed :: "event list"

definition output_path_of :: "string \<Rightarrow> string" where
  "output_path_of track_id = track_id @ ''-analysis.json''"

text \<open>
  The body of \<open>for song in setlist["songs"]\<close>.  The entry of a track that is not missing
  has no key \<open>missing\<close>; the field is \<open>False\<close> then.
\<close>

definition process_song ::
  "bool \<Rightarrow> clusterer \<Rightarrow> audio_dir \<Rightarrow> song \<Rightarrow> batch_state \<Rightarrow> error + batch_state" where
  "process_song resume agglo audio s st =
     (let track_id = trackId s;
          audio_path = audioFile s;
          output_path = output_path_of track_id
      in if audio audio_path = None
         then Inr (st\<lparr>timeline_tracks := timeline_tracks st @
                        [\<lparr>e_trackId = track_id, globalFrameStart = global_offset st,
                          globalFrameEnd = global_offset st, e_totalFrames = 0,
                          missing = True\<rparr>],
                      printed := printed st @ [SKIP (audioFile s)]\<rparr>)
         else
           bnd (case (if resume then tracks_files st output_path else None) of
                  Some existing \<Rightarrow>
                    Inr (totalFrames (meta existing), duration (meta existing),
                         tracks_files st, RESUME track_id)
                | None \<Rightarrow>
                    bnd (analyze_track agglo audio (tracks_files st) audio_path output_path)
                      (\<lambda>(result, files').
                         Inr (totalFrames (meta result), duration (meta result),
                              files', ANALYZING track_id)))
             (\<lambda>(total_frames, track_duration, files', ev).
                Inr (st\<lparr>timeline_tracks := timeline_tracks st @
                           [\<lparr>e_trackId = track_id, globalFrameStart = global_offset st,
                             globalFrameEnd = global_offset st + total_frames,
                             e_totalFrames = total_frames, missing = False\<rparr>],
                         global_offset := global_offset st + total_frames,
                         total_duration := total_duration st + track_duration,
                         tracks_files := files',
                         printed := printed st @ [ev]\<rparr>)))"

fun run_songs ::
  "bool \<Rightarrow> clusterer \<Rightarrow> audio_dir \<Rightarrow> song list \<Rightarrow> batch_state \<Rightarrow> error + batch_state" where
  "run_songs resume agglo audio [] st = Inr st"
| "run_songs resume agglo audio (s # ss) st =
     bnd (process_song resume agglo audio s st) (run_songs resume agglo audio ss)"

definition initial_state :: "tracks_dir \<Rightarrow> batch_state" where
  "initial_state files0 =
     \<lparr>timeline_tracks = [], global_offset = 0, total_duration = 0,
      tracks_files = files0, printed = []\<rparr>"

text \<open>
  The batch run: the timeline written to \<open>show-timeline.json\<close>, the tracks directory it
  leaves and the events printed.
\<close>

definition main ::
  "bool \<Rightarrow> clusterer \<Rightarrow> audio_dir \<Rightarrow> tracks_dir \<Rightarrow> setlist
     \<Rightarrow> error + show_timeline \<times> tracks_dir \<times> event list" where
  "main resume agglo audio files0 sl =
     bnd (run_songs resume agglo audio (songs sl) (initial_state files0)) (\<lambda>st.
       Inr (\<lparr>tl_date = date sl, tl_totalFrames = global_offset st,
              totalDuration = py_round (total_duration st) 2,
              tracks = timeline_tracks st\<rparr>,
            tracks_files st, printed st))"

text \<open>
  \<open>entries_chain a es b\<close>: the entries start at global frame \<open>a\<close>, each starts where
  the one before ends and ends \<open>totalFrames\<close> later, a missing entry has no frames, and
  the last ends at \<open>b\<close>.
\<close>

fun entries_chain :: "nat \<Rightarrow> timeline_entry list \<Rightarrow> nat \<Rightarrow> bool" where
  "entries_chain a [] b = (a = b)"
| "entries_chain a (e # es) b =
     (globalFrameStart e = a \<and> globalFrameEnd e = a + e_totalFrames e \<and>
      (missing e \<longrightarrow> e_totalFrames e = 0) \<and> entries_chain (globalFrameEnd e) es b)"

text \<open>
  \<open>persisted_fresh agglo audio files s\<close>: if the audio of song \<open>s\<close> is present, the tracks
  directory holds for it the analysis that the pipeline computes from that audio.
\<close>

definition persisted_fresh :: "clusterer \<Rightarrow> audio_dir \<Rightarrow> tracks_dir \<Rightarrow> song \<Rightarrow> bool" where
  "persisted_fresh agglo audio files s =
     (audio (audioFile s) = None \<or>
      (\<exists>x out. audio (audioFile s) = Some (Audio x) \<and>
         analyze_audio agglo (audioFile s) x = Inr out \<and>
         files (output_path_of (trackId s)) = Some out))"

section \<open>A worked example\<close>

text \<open>
  A track of 220600 samples (a little over 10 seconds, 301 frames) with 301 native frames
  per stream, a clustering outcome that keeps the first windows apart and joins the rest,
  and a show of three songs of which the second has no audio file.
\<close>

definition example_rms :: "real list" where
  "example_rms = 0 # replicate 299 (1 / 2) @ [1]"

definition example_track :: features where
  "example_track =
     \<lparr>y_len = 220600, rms_raw = example_rms, cent_raw = replicate 301 1000,
      onset_env = replicate 301 0, tempo_val = 1201234 / 10000, beat_frames = [0, 15, 30],
      S_mag = replicate 4 (replicate 301 1), freqs = [50, 200, 1000, 4000],
      chroma_raw = replicate 12 (replicate 301 (1 / 2)),
      contrast_raw = replicate 7 (replicate 301 20),
      flatness_raw = replicate 301 (1 / 100),
      mfcc = replicate 13 (replicate 301 0)\<rparr>"

definition chain_clusterer :: clusterer where
  "chain_clusterer n_clusters X = map (\<lambda>i. min i (n_clusters - 1)) [0..<length X]"

text \<open>A second track, of 441000 samples (20 seconds, 600 frames).\<close>

definition example_long :: features where
  "example_long = example_track\<lparr>y_len := 441000\<rparr>"

definition example_audio :: audio_dir where
  "example_audio = [''t1.mp3'' \<mapsto> Audio example_track, ''t3.mp3'' \<mapsto> Audio example_long]"

definition example_setlist :: setlist where
  "example_setlist =
     \<lparr>date = ''1977-05-08'',
      songs = [\<lparr>trackId = ''s1t01'', title = ''one'', audioFile = ''t1.mp3''\<rparr>,
               \<lparr>trackId = ''s1t02'', title = ''two'', audioFile = ''t2.mp3''\<rparr>,
               \<lparr>trackId = ''s1t03'', title = ''three'', audioFile = ''t3.mp3''\<rparr>]\<rparr>"

text \<open>A setlist that uses one track identifier for two songs with different audio.\<close>

definition repeated_id_setlist :: setlist where
  "repeated_id_setlist =
     \<lparr>date = ''1977-05-08'',
      songs = [\<lparr>trackId = ''s1t01'', title = ''one'', audioFile = ''t1.mp3''\<rparr>,
               \<lparr>trackId = ''s1t01'', title = ''three'', audioFile = ''t3.mp3''\<rparr>]\<rparr>"

text \<open>A persisted analysis, as an earlier run may have left it for the second song.\<close>

definition example_persisted :: track_analysis where
  "example_persisted =
     \<lparr>meta = \<lparr>source = ''t2.mp3'', duration = 10, fps = 30, sr = 22050, hopLength = 735,
               totalFrames = 300, tempo = 120, sections = []\<rparr>,
      frames = []\<rparr>"

section \<open>Properties of the normalizer\<close>

lemma amin_Min: "arr \<noteq> [] \<Longrightarrow> amin arr = Inr (Min (set arr))"
  by (cases arr) (simp_all add: Min.set_eq_fold [symmetric])

lemma amax_Max: "arr \<noteq> [] \<Longrightarrow> amax arr = Inr (Max (set arr))"
  by (cases arr) (simp_all add: Max.set_eq_fold [symmetric])

lemma normalize_eq:
  assumes "arr \<noteq> []"
  shows "normalize arr =
     Inr (if Max (set arr) - Min (set arr) < 1 / 10 ^ 10 then replicate (length arr) 0
          else map (\<lambda>x. (x - Min (set arr)) / (Max (set arr) - Min (set arr))) arr)"
  using assms by (simp add: normalize_def bnd_def amin_Min amax_Max map_replicate_const)

lemma normalize_length: "normalize arr = Inr ys \<Longrightarrow> length ys = length arr"
proof -
  assume a: "normalize arr = Inr ys"
  then have "arr \<noteq> []" by (auto simp: normalize_def bnd_def)
  from normalize_eq [OF this] a show ?thesis by (auto split: if_splits)
qed

lemma normalize_nonempty: "arr \<noteq> [] \<Longrightarrow> \<exists>ys. normalize arr = Inr ys \<and> length ys = length arr"
  by (simp add: normalize_eq)

text \<open>
  C6.  On a stream with at least one value (NumPy's \<open>min\<close> rejects any other) the normalizer
  returns, and what it returns has the length of the stream and values between 0 and 1.
  When \<open>max - min\<close> is below \<open>1e-10\<close>, in particular on a constant stream, the result is
  the zero vector; otherwise the divisor \<open>max - min\<close> is not zero and the result is
  \<open>(x - min) / (max - min)\<close> elementwise.
\<close>

theorem normalize_unit_range:
  assumes "arr \<noteq> []"
  shows "\<exists>ys. normalize arr = Inr ys \<and> length ys = length arr \<and>
           (\<forall>y \<in> set ys. 0 \<le> y \<and> y \<le> 1) \<and>
           (Max (set arr) - Min (set arr) < 1 / 10 ^ 10 \<longrightarrow> ys = replicate (length arr) 0) \<and>
           (\<not> Max (set arr) - Min (set arr) < 1 / 10 ^ 10 \<longrightarrow>
              Max (set arr) - Min (set arr) \<noteq> 0 \<and>
              ys = map (\<lambda>x. (x - Min (set arr)) / (Max (set arr) - Min (set arr))) arr) \<and>
           ((\<exists>c. set arr = {c}) \<longrightarrow> ys = replicate (length arr) 0)"
proof -
  let ?mn = "Min (set arr)" and ?mx = "Max (set arr)"
  let ?ys = "if ?mx - ?mn < 1 / 10 ^ 10 then replicate (length arr) 0
             else map (\<lambda>x. (x - ?mn) / (?mx - ?mn)) arr"
  have eq: "normalize arr = Inr ?ys" by (rule normalize_eq [OF assms])
  have len: "length ?ys = length arr" by simp
  have rng: "\<forall>y \<in> set ?ys. 0 \<le> y \<and> y \<le> 1"
  proof (cases "?mx - ?mn < 1 / 10 ^ 10")
    case True
    then show ?thesis by simp
  next
    case False
    then have pos: "0 < ?mx - ?mn" by (simp add: not_less)
    have "0 \<le> (x - ?mn) / (?mx - ?mn) \<and> (x - ?mn) / (?mx - ?mn) \<le> 1" if "x \<in> set arr" for x
    proof -
      have "?mn \<le> x" "x \<le> ?mx" using that by simp_all
      then show ?thesis using pos by simp
    qed
    then show ?thesis using False by simp
  qed
  have nz: "\<not> ?mx - ?mn < 1 / 10 ^ 10 \<Longrightarrow> ?mx - ?mn \<noteq> 0"
    by auto
  have const: "(\<exists>c. set arr = {c}) \<Longrightarrow> ?ys = replicate (length arr) 0"
    by auto
  show ?thesis
    using eq len rng nz const by (intro exI [of _ ?ys]) simp
qed

theorem normalize_unit_range_witness:
  "[1, 2, 4 :: real] \<noteq> [] \<and> normalize [1, 2, 4] = Inr [0, 1 / 3, 1] \<and>
   normalize [3, 3] = Inr [0, 0]"
  using normalize_unit_range [of "[1, 2, 4]"] normalize_unit_range [of "[3, 3]"]
  by (simp add: normalize_def bnd_def)

section \<open>Properties of the section detector\<close>

subsection \<open>The target cluster count\<close>

lemma n_clusters_of_closed:
  "n_clusters_of n = (if n \<le> 3 then 2 else if n < 16 then 3 else if n < 48 then n div 4 else 12)"
  by (auto simp: n_clusters_of_def Let_def)

text \<open>
  C5, as amended.  The target cluster count is \<open>clamp(floor(numWindows / 4), 3, 12)\<close>,
  the quotient rounded down and not to the nearest integer, and it is reduced to
  \<open>max(2, numWindows - 1)\<close> when the number of windows is at most the target, which
  includes the case of as many windows as target clusters.
\<close>

theorem n_clusters_floor:
  "int (n_clusters_of n) =
     (let target = max 3 (min 12 \<lfloor>real n / 4\<rfloor>)
      in if int n \<le> target then max 2 (int n - 1) else target)"
proof -
  have fl: "\<lfloor>real n / 4\<rfloor> = int (n div 4)"
    by (simp add: floor_divide_of_nat_eq [of n 4, simplified])
  show ?thesis
    unfolding fl n_clusters_of_def Let_def by (auto simp: max_def min_def)
qed

theorem n_clusters_floor_witness:
  "int (n_clusters_of 15) = 3 \<and> int (n_clusters_of 3) = 2 \<and> int (n_clusters_of 100) = 12"
  using n_clusters_floor [of 15] n_clusters_floor [of 3] n_clusters_floor [of 100]
  by (simp add: n_clusters_of_def)

text \<open>
  C5 as stated fails.  With 15 windows the count of the specification is
  \<open>round(3.75) = 4\<close>, the source computes \<open>15 // 4 = 3\<close>; with 3 windows the target 3 is
  not above the number of windows, so the specification keeps 3, while the source tests
  \<open>n_segs <= n_clusters\<close> and reduces to 2.
\<close>

theorem n_clusters_round_counterexample:
  "n_clusters_of 15 = 3 \<and> spec_n_clusters 15 = 4 \<and> n_clusters_of 3 = 2 \<and> spec_n_clusters 3 = 3"
  by (simp add: n_clusters_of_def spec_n_clusters_def round_half_even_def Let_def)

subsection \<open>Contiguity of the sections\<close>

lemma chained_append:
  "chained a (xs @ ys) c \<longleftrightarrow> (\<exists>b. chained a xs b \<and> chained b ys c)"
  by (induction xs arbitrary: a) auto

lemma chained_le: "chained a secs b \<Longrightarrow> a \<le> b"
proof (induction secs arbitrary: a)
  case Nil
  then show ?case by simp
next
  case (Cons x xs)
  then have "a \<le> frameEnd x" "frameEnd x \<le> b" by auto
  then show ?case by simp
qed

lemma chained_snoc:
  "chained a secs b \<Longrightarrow> b \<le> c \<Longrightarrow>
   chained a (secs @ [mk_section rms_norm b c k]) c"
  by (simp add: chained_append mk_section_def Let_def)

lemma chained_starts_ge: "chained a secs b \<Longrightarrow> s \<in> set secs \<Longrightarrow> a \<le> frameStart s"
proof (induction secs arbitrary: a)
  case Nil
  then show ?case by simp
next
  case (Cons x xs)
  then show ?case by (auto dest: chained_le) (meson chained_le le_trans Cons.IH)
qed

lemma chained_sorted: "chained a secs b \<Longrightarrow> sorted (map frameStart secs)"
proof (induction secs arbitrary: a)
  case Nil
  then show ?case by simp
next
  case (Cons x xs)
  then have "\<forall>s \<in> set xs. frameStart x \<le> frameStart s"
    by (auto dest!: chained_starts_ge)
  with Cons show ?case by auto
qed

lemma chained_nth:
  "chained a secs b \<Longrightarrow> Suc i < length secs \<Longrightarrow> frameStart (secs ! Suc i) = frameEnd (secs ! i)"
proof (induction secs arbitrary: a i)
  case Nil
  then show ?case by simp
next
  case (Cons x xs)
  show ?case
  proof (cases i)
    case 0
    with Cons.prems show ?thesis by (cases xs) auto
  next
    case (Suc j)
    with Cons show ?thesis by auto
  qed
qed

lemma chained_last: "chained a secs b \<Longrightarrow> secs \<noteq> [] \<Longrightarrow> frameEnd (last secs) = b"
  by (induction secs arbitrary: a) auto

lemma chained_hd: "chained a secs b \<Longrightarrow> secs \<noteq> [] \<Longrightarrow> frameStart (hd secs) = a"
  by (cases secs) auto

lemma chained_cover: "chained a secs b \<Longrightarrow> (\<Union>s \<in> set secs. {frameStart s..<frameEnd s}) = {a..<b}"
proof (induction secs arbitrary: a)
  case Nil
  then show ?case by simp
next
  case (Cons x xs)
  then have le: "a \<le> frameEnd x" "frameEnd x \<le> b" and st: "frameStart x = a"
    by (auto dest: chained_le)
  have "(\<Union>s \<in> set xs. {frameStart s..<frameEnd s}) = {frameEnd x..<b}"
    using Cons by auto
  then show ?case using le st by auto
qed

lemma chained_disjoint:
  "chained a secs b \<Longrightarrow> i < j \<Longrightarrow> j < length secs \<Longrightarrow>
   {frameStart (secs ! i)..<frameEnd (secs ! i)} \<inter> {frameStart (secs ! j)..<frameEnd (secs ! j)} = {}"
proof (induction secs arbitrary: a i j)
  case Nil
  then show ?case by simp
next
  case (Cons x xs)
  obtain j' where j: "j = Suc j'" using Cons.prems(2) by (cases j) auto
  have ch: "chained (frameEnd x) xs b" using Cons.prems(1) by simp
  show ?case
  proof (cases i)
    case 0
    have "xs ! j' \<in> set xs" using Cons.prems(3) j by simp
    then have "frameEnd x \<le> frameStart (xs ! j')" using ch chained_starts_ge by blast
    then show ?thesis using 0 j by auto
  next
    case (Suc i')
    then show ?thesis using Cons.IH [OF ch, of i' j'] Cons.prems j by simp
  qed
qed

lemma chained_contiguous_cover:
  "chained 0 secs n \<Longrightarrow> secs \<noteq> [] \<Longrightarrow> contiguous_cover secs n"
  unfolding contiguous_cover_def
  by (simp add: chained_sorted chained_hd chained_last chained_nth)

lemma merge_loop_chained:
  assumes "merge_loop rms_norm n_frames ls i secs cur start = (secs', start')"
    and "chained 0 secs (start * seg_hop)"
    and "start < i"
    and "(i + length ls) * seg_hop \<le> n_frames + seg_hop"
  shows "chained 0 secs' (start' * seg_hop) \<and> start' < i + length ls"
  using assms
proof (induction ls arbitrary: i secs cur start)
  case Nil
  then show ?case by simp
next
  case (Cons l ls)
  have bound: "(Suc i + length ls) * seg_hop \<le> n_frames + seg_hop"
    using Cons.prems(4) by simp
  show ?case
  proof (cases "l \<noteq> cur")
    case True
    have "i * seg_hop \<le> n_frames" using Cons.prems(4) by (simp add: algebra_simps)
    then have m: "min (i * seg_hop) n_frames = i * seg_hop" by simp
    have le: "start * seg_hop \<le> i * seg_hop" using Cons.prems(3) by simp
    have ch: "chained 0 (secs @ [mk_section rms_norm (start * seg_hop) (i * seg_hop) (length secs)]) (i * seg_hop)"
      by (rule chained_snoc [OF Cons.prems(2) le])
    have run: "merge_loop rms_norm n_frames ls (Suc i)
                 (secs @ [mk_section rms_norm (start * seg_hop) (i * seg_hop) (length secs)]) l i = (secs', start')"
      using Cons.prems(1) True m by simp
    from Cons.IH [OF run ch _ bound] show ?thesis by simp
  next
    case False
    then have run: "merge_loop rms_norm n_frames ls (Suc i) secs cur start = (secs', start')"
      using Cons.prems(1) by simp
    from Cons.IH [OF run Cons.prems(2) _ bound] Cons.prems(3) show ?thesis by simp
  qed
qed

lemma n_segs_bound: "n_segs_of n_frames * seg_hop \<le> n_frames + seg_hop"
proof -
  have "n_frames div seg_hop * seg_hop \<le> n_frames" by simp
  then have "n_frames div seg_hop * seg_hop \<le> n_frames + seg_hop" by (rule trans_le_add1)
  then show ?thesis
    by (simp add: n_segs_of_def max_def del: div_mult_self_is_m div_mult_self1_is_m)
qed

lemma n_segs_ge2: "2 \<le> n_segs_of n_frames \<longleftrightarrow> 2 * seg_hop \<le> n_frames"
  by (auto simp: n_segs_of_def seg_hop_def FPS_def max_def)

lemma detect_sections_eq:
  assumes len: "\<forall>k X. length (agglo k X) = length X"
  shows "detect_sections agglo mf n_frames rms_norm =
     (if n_frames < 2 * seg_hop then Inl ValueError
      else (let labels = agglo (n_clusters_of (n_segs_of n_frames))
                           (map (seg_feature mf) [0..<n_segs_of n_frames]);
                r = merge_loop rms_norm n_frames (tl labels) 1 [] (hd labels) 0
            in Inr (fst r @ [mk_section rms_norm (snd r * seg_hop) n_frames (length (fst r))])))"
proof (cases "n_frames < 2 * seg_hop")
  case True
  then have "n_segs_of n_frames < 2" using n_segs_ge2 [of n_frames] by simp
  then show ?thesis using True by (simp add: detect_sections_def fit_predict_def bnd_def Let_def)
next
  case False
  then have ge: "2 \<le> n_segs_of n_frames" using n_segs_ge2 [of n_frames] by simp
  let ?X = "map (seg_feature mf) [0..<n_segs_of n_frames]"
  let ?labels = "agglo (n_clusters_of (n_segs_of n_frames)) ?X"
  have "length ?labels = n_segs_of n_frames" using len by simp
  then obtain l0 ls where lab: "?labels = l0 # ls" using ge by (cases ?labels) auto
  show ?thesis using False ge lab
    by (simp add: detect_sections_def fit_predict_def bnd_def Let_def split: prod.splits)
qed

text \<open>
  C2.  Let the clustering step return one label per window, whatever the labels are.
  Then section detection returns a list for every track of at least two windows, and every
  list it returns is ordered by \<open>frameStart\<close>, starts at frame 0, has each section start
  where the one before ends, and ends at \<open>n_frames\<close>; the half-open ranges cover
  \<open>[0, n_frames)\<close> and are pairwise disjoint.
\<close>

theorem detect_sections_contiguous:
  assumes len: "\<forall>k X. length (agglo k X) = length X"
  shows "(2 * seg_hop \<le> n_frames \<longrightarrow> (\<exists>secs. detect_sections agglo mf n_frames rms_norm = Inr secs)) \<and>
         (\<forall>secs. detect_sections agglo mf n_frames rms_norm = Inr secs \<longrightarrow>
            contiguous_cover secs n_frames \<and>
            (\<Union>s \<in> set secs. {frameStart s..<frameEnd s}) = {0..<n_frames} \<and>
            (\<forall>i j. i < j \<and> j < length secs \<longrightarrow>
               {frameStart (secs ! i)..<frameEnd (secs ! i)} \<inter>
               {frameStart (secs ! j)..<frameEnd (secs ! j)} = {}))"
proof (intro conjI allI impI)
  assume "2 * seg_hop \<le> n_frames"
  then show "\<exists>secs. detect_sections agglo mf n_frames rms_norm = Inr secs"
    by (simp add: detect_sections_eq [OF len] Let_def)
next
  fix secs
  assume d: "detect_sections agglo mf n_frames rms_norm = Inr secs"
  let ?X = "map (seg_feature mf) [0..<n_segs_of n_frames]"
  let ?labels = "agglo (n_clusters_of (n_segs_of n_frames)) ?X"
  obtain secs' start' where r: "merge_loop rms_norm n_frames (tl ?labels) 1 [] (hd ?labels) 0 = (secs', start')"
    by (cases "merge_loop rms_norm n_frames (tl ?labels) 1 [] (hd ?labels) 0") auto
  from d have ge: "\<not> n_frames < 2 * seg_hop"
    and secs: "secs = secs' @ [mk_section rms_norm (start' * seg_hop) n_frames (length secs')]"
    using r by (auto simp: detect_sections_eq [OF len] Let_def split: if_splits)
  have "length ?labels = n_segs_of n_frames" using len by simp
  then have ltl: "1 + length (tl ?labels) = n_segs_of n_frames"
    using ge n_segs_ge2 [of n_frames] by (cases ?labels) auto
  have bound: "(1 + length (tl ?labels)) * seg_hop \<le> n_frames + seg_hop"
    unfolding ltl by (rule n_segs_bound)
  have inv: "chained 0 secs' (start' * seg_hop) \<and> start' < 1 + length (tl ?labels)"
    by (rule merge_loop_chained [OF r _ _ bound]) simp_all
  then have "Suc start' \<le> n_segs_of n_frames" using ltl by simp
  then have "Suc start' * seg_hop \<le> n_segs_of n_frames * seg_hop" by (rule mult_le_mono1)
  then have le: "start' * seg_hop \<le> n_frames" using n_segs_bound [of n_frames] by simp
  have ch: "chained 0 secs n_frames"
    unfolding secs using inv le by (intro chained_snoc) simp_all
  have ne: "secs \<noteq> []" by (simp add: secs)
  show "contiguous_cover secs n_frames" by (rule chained_contiguous_cover [OF ch ne])
  show "(\<Union>s \<in> set secs. {frameStart s..<frameEnd s}) = {0..<n_frames}" by (rule chained_cover [OF ch])
  fix i j
  assume "i < j \<and> j < length secs"
  then show "{frameStart (secs ! i)..<frameEnd (secs ! i)} \<inter>
             {frameStart (secs ! j)..<frameEnd (secs ! j)} = {}"
    using chained_disjoint [OF ch] by blast
qed

theorem detect_sections_contiguous_witness:
  "(\<forall>k X. length ((\<lambda>k X. map (\<lambda>i. min i (k - 1)) [0..<length X]) k (X :: real option list list)) = length X) \<and>
   detect_sections (\<lambda>k X. map (\<lambda>i. min i (k - 1)) [0..<length X]) [] 450 (replicate 450 (1 / 2)) =
     Inr [\<lparr>frameStart = 0, frameEnd = 150, label = ''section_0'', energy = ''mid'',
            avgEnergy = Some (1 / 2)\<rparr>,
          \<lparr>frameStart = 150, frameEnd = 450, label = ''section_1'', energy = ''mid'',
            avgEnergy = Some (1 / 2)\<rparr>] \<and>
   contiguous_cover
     [\<lparr>frameStart = 0, frameEnd = 150, label = ''section_0'', energy = ''mid'',
        avgEnergy = Some (1 / 2)\<rparr>,
      \<lparr>frameStart = 150, frameEnd = 450, label = ''section_1'', energy = ''mid'',
        avgEnergy = Some (1 / 2)\<rparr>] 450"
proof -
  let ?agglo = "(\<lambda>k X. map (\<lambda>i. min i (k - 1)) [0..<length X]) :: clusterer"
  have h: "\<forall>k X. length (?agglo k X) = length X" by simp
  have v: "detect_sections ?agglo [] 450 (replicate 450 (1 / 2)) =
     Inr [\<lparr>frameStart = 0, frameEnd = 150, label = ''section_0'', energy = ''mid'',
            avgEnergy = Some (1 / 2)\<rparr>,
          \<lparr>frameStart = 150, frameEnd = 450, label = ''section_1'', energy = ''mid'',
            avgEnergy = Some (1 / 2)\<rparr>]"
    by code_simp
  from detect_sections_contiguous [OF h, of 450 "[]" "replicate 450 (1 / 2)"] v h
  show ?thesis by simp
qed

text \<open>
  C4.  A track of 150 frames has one coarse window.  The source asks the clustering for
  \<open>max(2, 1 - 1) = 2\<close> clusters of a single sample, which scikit-learn rejects with
  ValueError: no section is returned.  The code after the clustering would turn a single
  label into one section over the whole track (\<open>single_label_one_section\<close>).
\<close>

theorem detect_sections_single_window_fails:
  "detect_sections agglo mf 150 rms_norm = Inl ValueError"
  by (simp add: detect_sections_def n_segs_of_def seg_hop_def FPS_def fit_predict_def bnd_def Let_def)

lemma detect_sections_short:
  "n_frames < 2 * seg_hop \<Longrightarrow> detect_sections agglo mf n_frames rms_norm = Inl ValueError"
  using n_segs_ge2 [of n_frames]
  by (simp add: detect_sections_def fit_predict_def bnd_def Let_def)

lemma single_label_one_section:
  "(case merge_loop rms_norm n_frames [] 1 [] l0 0 of
      (secs, section_start) \<Rightarrow>
         secs @ [mk_section rms_norm (section_start * seg_hop) n_frames (length secs)])
   = [mk_section rms_norm 0 n_frames 0]"
  by simp

section \<open>Properties of the single-track pipeline\<close>

lemma bnd_Inr [simp]: "bnd (Inr x) f = f x"
  by (simp add: bnd_def)

lemma bnd_Inl [simp]: "bnd (Inl e) f = Inl e"
  by (simp add: bnd_def)

lemma bnd_eq_Inr: "bnd m f = Inr y \<longleftrightarrow> (\<exists>x. m = Inr x \<and> f x = Inr y)"
  by (cases m) simp_all

lemma mapM_map: "(\<And>x. x \<in> set xs \<Longrightarrow> f x = Inr (g x)) \<Longrightarrow> mapM f xs = Inr (map g xs)"
  by (induction xs) simp_all

lemma mapM_length: "mapM f xs = Inr ys \<Longrightarrow> length ys = length xs"
  by (induction xs arbitrary: ys) (auto simp: bnd_eq_Inr)

lemma mapM_nth: "mapM f xs = Inr ys \<Longrightarrow> i < length xs \<Longrightarrow> f (xs ! i) = Inr (ys ! i)"
proof (induction xs arbitrary: ys i)
  case Nil
  then show ?case by simp
next
  case (Cons x xs)
  then show ?case by (cases i) (auto simp: bnd_eq_Inr)
qed

lemma mapM_ok: "(\<And>x. x \<in> set xs \<Longrightarrow> \<exists>y. f x = Inr y) \<Longrightarrow> \<exists>ys. mapM f xs = Inr ys"
proof (induction xs)
  case Nil
  then show ?case by simp
next
  case (Cons x xs)
  then obtain y ys where "f x = Inr y" "mapM f xs = Inr ys" by (metis list.set_intros)
  then show ?case by simp
qed

lemma length_spec_reconcile [simp]: "length (spec_reconcile xs n) = n"
  by (simp add: spec_reconcile_def)

lemma pad_or_trim_eq: "arr \<noteq> [] \<Longrightarrow> pad_or_trim arr n = Inr (spec_reconcile arr n)"
  by (simp add: pad_or_trim_def np_pad_edge_def spec_reconcile_def)

lemma rectangular_row: "rectangular a \<Longrightarrow> row \<in> set a \<Longrightarrow> length row = shape1 a"
  by (simp add: rectangular_def)

lemma pad_or_trim_2d_eq:
  assumes "rectangular arr" and "0 < shape1 arr"
  shows "pad_or_trim_2d arr n = Inr (map (\<lambda>row. spec_reconcile row n) arr)"
proof (cases "n \<le> shape1 arr")
  case True
  then have "map (take n) arr = map (\<lambda>row. spec_reconcile row n) arr"
    using assms(1) by (simp add: spec_reconcile_def rectangular_row)
  then show ?thesis using True by (simp add: pad_or_trim_2d_def)
next
  case False
  have "mapM (\<lambda>row. np_pad_edge row (n - shape1 arr)) arr = Inr (map (\<lambda>row. spec_reconcile row n) arr)"
  proof (rule mapM_map)
    fix row
    assume "row \<in> set arr"
    then have "length row = shape1 arr" using assms(1) by (rule rectangular_row [rotated])
    then show "np_pad_edge row (n - shape1 arr) = Inr (spec_reconcile row n)"
      using False assms(2) by (auto simp: np_pad_edge_def spec_reconcile_def)
  qed
  then show ?thesis using False by (simp add: pad_or_trim_2d_def)
qed

lemma matrix_reconcile:
  "matrix k a \<Longrightarrow> length (map (\<lambda>row. spec_reconcile row n) a) = k \<and>
     (\<forall>row \<in> set (map (\<lambda>row. spec_reconcile row n) a). length row = n)"
  by (auto simp: matrix_def)

lemma normalize_ok:
  assumes "arr \<noteq> []"
  shows "\<exists>ys. normalize arr = Inr ys \<and> length ys = length arr \<and> ys \<noteq> []"
proof -
  from normalize_eq [OF assms] obtain ys where ys: "normalize arr = Inr ys" by blast
  then have "length ys = length arr" by (rule normalize_length)
  with ys assms show ?thesis by auto
qed

lemma band_energy_ok:
  assumes "length fs = length S"
  shows "\<exists>ys. band_energy S fs lo hi = Inr ys \<and> length ys = shape1 S"
  using assms by (simp add: band_energy_def Let_def)

lemma band_normalize_ok:
  assumes "length fs = length S" and "0 < shape1 S"
  shows "\<exists>ys. bnd (band_energy S fs lo hi) normalize = Inr ys \<and> ys \<noteq> []"
proof -
  from band_energy_ok [OF assms(1)] obtain e where e: "band_energy S fs lo hi = Inr e" "length e = shape1 S"
    by blast
  then have "e \<noteq> []" using assms(2) by auto
  from normalize_ok [OF this] e(1) show ?thesis by auto
qed

lemma mapM_normalize_ok:
  assumes "matrix k a"
  shows "\<exists>b. mapM normalize a = Inr b \<and> matrix k b"
proof -
  have ne: "row \<noteq> []" if "row \<in> set a" for row
    using assms that by (auto simp: matrix_def rectangular_def)
  then have "\<exists>b. mapM normalize a = Inr b"
    by (intro mapM_ok) (meson normalize_ok)
  then obtain b where b: "mapM normalize a = Inr b" ..
  have lb: "length b = length a" using b by (rule mapM_length)
  have rows: "length (b ! i) = length (a ! i)" if "i < length a" for i
    using mapM_nth [OF b that] by (rule normalize_length)
  have sh: "length (a ! i) = shape1 a" if "i < length a" for i
    using assms that by (simp add: matrix_def rectangular_def)
  have pos: "0 < shape1 a" using assms by (simp add: matrix_def)
  then have "a \<noteq> []" by (auto simp: shape1_def)
  then have "b \<noteq> []" using lb by auto
  then have "shape1 b = length (b ! 0)" by (cases b) (simp_all add: shape1_def)
  also have "\<dots> = shape1 a" using rows [of 0] sh [of 0] \<open>a \<noteq> []\<close> by simp
  finally have sb: "shape1 b = shape1 a" .
  have "rectangular b"
    unfolding rectangular_def
  proof
    fix row
    assume "row \<in> set b"
    then obtain i where "i < length b" "row = b ! i" by (auto simp: in_set_conv_nth)
    then show "length row = shape1 b" using rows sh lb sb by simp
  qed
  then have "matrix k b" using assms lb sb by (simp add: matrix_def)
  with b show ?thesis by blast
qed

lemma normalize_all_ok:
  assumes "librosa_shapes x"
  shows "\<exists>normed. normalize_all x = Inr normed \<and> stream_shapes normed \<and>
           a_chroma normed = chroma_raw x"
proof -
  from assms have ne: "rms_raw x \<noteq> []" "cent_raw x \<noteq> []" "onset_env x \<noteq> []" "flatness_raw x \<noteq> []"
    and S: "length (freqs x) = length (S_mag x)" "0 < shape1 (S_mag x)"
    and ch: "matrix 12 (chroma_raw x)" and co: "matrix 7 (contrast_raw x)"
    by (simp_all add: librosa_shapes_def)
  obtain r where r: "normalize (rms_raw x) = Inr r" "r \<noteq> []" using normalize_ok [OF ne(1)] by blast
  obtain c where c: "normalize (cent_raw x) = Inr c" "c \<noteq> []" using normalize_ok [OF ne(2)] by blast
  obtain on where on: "normalize (onset_env x) = Inr on" "on \<noteq> []" using normalize_ok [OF ne(3)] by blast
  obtain fl where fl: "normalize (flatness_raw x) = Inr fl" "fl \<noteq> []" using normalize_ok [OF ne(4)] by blast
  obtain b1 where b1: "bnd (band_energy (S_mag x) (freqs x) 0 100) normalize = Inr b1" "b1 \<noteq> []"
    using band_normalize_ok [OF S] by blast
  obtain b2 where b2: "bnd (band_energy (S_mag x) (freqs x) 100 400) normalize = Inr b2" "b2 \<noteq> []"
    using band_normalize_ok [OF S] by blast
  obtain b3 where b3: "bnd (band_energy (S_mag x) (freqs x) 400 2000) normalize = Inr b3" "b3 \<noteq> []"
    using band_normalize_ok [OF S] by blast
  obtain b4 where b4: "bnd (band_energy (S_mag x) (freqs x) 2000 8000) normalize = Inr b4" "b4 \<noteq> []"
    using band_normalize_ok [OF S] by blast
  obtain cn where cn: "mapM normalize (contrast_raw x) = Inr cn" "matrix 7 cn"
    using mapM_normalize_ok [OF co] by blast
  show ?thesis
    unfolding normalize_all_def
    by (simp add: r c on fl b1 b2 b3 b4 cn ch stream_shapes_def)
qed

lemma align_all_ok:
  assumes "stream_shapes a"
  shows "align_all a n =
           Inr \<lparr>a_rms = spec_reconcile (a_rms a) n, a_cent = spec_reconcile (a_cent a) n,
                a_onset = spec_reconcile (a_onset a) n, a_sub = spec_reconcile (a_sub a) n,
                a_low = spec_reconcile (a_low a) n, a_mid = spec_reconcile (a_mid a) n,
                a_high = spec_reconcile (a_high a) n,
                a_chroma = map (\<lambda>row. spec_reconcile row n) (a_chroma a),
                a_contrast = map (\<lambda>row. spec_reconcile row n) (a_contrast a),
                a_flatness = spec_reconcile (a_flatness a) n\<rparr>"
  using assms unfolding align_all_def stream_shapes_def matrix_def
  by (simp add: pad_or_trim_eq pad_or_trim_2d_eq)

lemma get_ok: "i < length xs \<Longrightarrow> get xs i = Inr (xs ! i)"
  by (simp add: get_def)

lemma get2_ok: "c < length a \<Longrightarrow> i < length (a ! c) \<Longrightarrow> get2 a c i = Inr (a ! c ! i)"
  by (simp add: get2_def get_def)

lemma round_column:
  assumes "length a = k" and "\<forall>row \<in> set a. length row = n" and "i < n"
  shows "mapM (\<lambda>c. bnd (get2 a c i) (\<lambda>v. Inr (py_round v 3))) [0..<k] =
           Inr (map (\<lambda>c. py_round (a ! c ! i) 3) [0..<k])"
proof (rule mapM_map)
  fix c
  assume "c \<in> set [0..<k]"
  then have c: "c < length a" using assms(1) by simp
  then have "length (a ! c) = n" using assms(2) by simp
  then show "bnd (get2 a c i) (\<lambda>v. Inr (py_round v 3)) = Inr (py_round (a ! c ! i) 3)"
    using c assms(3) by (simp add: get2_ok)
qed

lemma frame_at_ok:
  assumes "aligned_to n a" and "i < n"
  shows "frame_at a beats i =
           Inr \<lparr>rms = py_round (a_rms a ! i) 4, centroid = py_round (a_cent a ! i) 4,
                onset = py_round (a_onset a ! i) 4, beat = (i \<in> set beats),
                sub = py_round (a_sub a ! i) 4, low = py_round (a_low a ! i) 4,
                mid = py_round (a_mid a ! i) 4, high = py_round (a_high a ! i) 4,
                chroma = map (\<lambda>c. py_round (a_chroma a ! c ! i) 3) [0..<12],
                contrast = map (\<lambda>c. py_round (a_contrast a ! c ! i) 3) [0..<7],
                flatness = py_round (a_flatness a ! i) 4\<rparr>"
proof -
  have ch: "mapM (\<lambda>c. bnd (get2 (a_chroma a) c i) (\<lambda>v. Inr (py_round v 3))) [0..<12] =
           Inr (map (\<lambda>c. py_round (a_chroma a ! c ! i) 3) [0..<12])"
    using assms by (intro round_column) (simp_all add: aligned_to_def)
  have co: "mapM (\<lambda>c. bnd (get2 (a_contrast a) c i) (\<lambda>v. Inr (py_round v 3))) [0..<7] =
           Inr (map (\<lambda>c. py_round (a_contrast a ! c ! i) 3) [0..<7])"
    using assms by (intro round_column) (simp_all add: aligned_to_def)
  have g: "get (a_rms a) i = Inr (a_rms a ! i)" "get (a_cent a) i = Inr (a_cent a ! i)"
    "get (a_onset a) i = Inr (a_onset a ! i)" "get (a_sub a) i = Inr (a_sub a ! i)"
    "get (a_low a) i = Inr (a_low a ! i)" "get (a_mid a) i = Inr (a_mid a ! i)"
    "get (a_high a) i = Inr (a_high a ! i)" "get (a_flatness a) i = Inr (a_flatness a ! i)"
    using assms by (simp_all add: aligned_to_def get_ok)
  show ?thesis
    unfolding frame_at_def by (simp only: g ch co bnd_Inr)
qed

lemma aligned_to_reconcile:
  assumes "stream_shapes a"
  shows "aligned_to n
           \<lparr>a_rms = spec_reconcile (a_rms a) n, a_cent = spec_reconcile (a_cent a) n,
            a_onset = spec_reconcile (a_onset a) n, a_sub = spec_reconcile (a_sub a) n,
            a_low = spec_reconcile (a_low a) n, a_mid = spec_reconcile (a_mid a) n,
            a_high = spec_reconcile (a_high a) n,
            a_chroma = map (\<lambda>row. spec_reconcile row n) (a_chroma a),
            a_contrast = map (\<lambda>row. spec_reconcile row n) (a_contrast a),
            a_flatness = spec_reconcile (a_flatness a) n\<rparr>"
  using assms by (auto simp: aligned_to_def stream_shapes_def matrix_def)

lemma frames_ok:
  assumes "aligned_to n a"
  shows "\<exists>fs. mapM (frame_at a beats) [0..<n] = Inr fs"
  by (rule mapM_ok) (simp add: frame_at_ok [OF assms])

lemma analyze_audio_frames:
  assumes "analyze_audio agglo p x = Inr out"
  shows "length (frames out) = n_frames_of (y_len x) \<and> totalFrames (meta out) = n_frames_of (y_len x)"
  using assms unfolding analyze_audio_def Let_def
  by (auto simp: bnd_eq_Inr dest: mapM_length)

lemma analyze_audio_ok:
  assumes "librosa_shapes x" and "\<forall>k X. length (agglo k X) = length X"
    and "2 * seg_hop \<le> n_frames_of (y_len x)"
  shows "\<exists>out. analyze_audio agglo p x = Inr out"
proof -
  let ?n = "n_frames_of (y_len x)"
  obtain normed where nm: "normalize_all x = Inr normed" "stream_shapes normed"
    using normalize_all_ok [OF assms(1)] by blast
  obtain a where a: "align_all normed ?n = Inr a" "aligned_to ?n a"
    using align_all_ok [OF nm(2), of ?n] aligned_to_reconcile [OF nm(2), of ?n] by simp
  obtain secs where secs: "detect_sections agglo (mfcc x) ?n (a_rms a) = Inr secs"
    using assms(3) by (simp add: detect_sections_eq [OF assms(2)] Let_def)
  obtain fs where fs: "mapM (frame_at a (beat_frames x)) [0..<?n] = Inr fs"
    using frames_ok [OF a(2)] by blast
  show ?thesis
    unfolding analyze_audio_def Let_def by (simp add: nm a secs fs)
qed

lemma n_frames_of_ceiling: "n_frames_of len_y = nat \<lceil>real len_y / 22050 * 30\<rceil>"
  by (simp add: n_frames_of_def SR_def FPS_def)

text \<open>
  C1.  Let librosa deliver streams of at least one frame each (\<open>librosa_shapes\<close>) and the
  clustering one label per window, and let \<open>n\<close> be \<open>ceil(duration * fps)\<close>.  Then every
  normalized stream, whatever its native length, is aligned to exactly \<open>n\<close> entries: cut
  at \<open>n\<close> when longer, extended with copies of its last value when shorter, the rows of
  the chroma and contrast matrices alike.  Every output that \<open>analyze_track\<close> returns
  has \<open>n\<close> frames and \<open>totalFrames = n\<close>, and it returns one for every track of at
  least two coarse windows.
\<close>

theorem frames_canonical_count:
  assumes "librosa_shapes x"
    and "\<forall>k X. length (agglo k X) = length X"
    and "audio p = Some (Audio x)"
    and "n = nat \<lceil>real (y_len x) / real SR * real FPS\<rceil>"
  shows "\<exists>normed a.
           normalize_all x = Inr normed \<and> align_all normed n = Inr a \<and>
           a_rms a = spec_reconcile (a_rms normed) n \<and>
           a_cent a = spec_reconcile (a_cent normed) n \<and>
           a_onset a = spec_reconcile (a_onset normed) n \<and>
           a_sub a = spec_reconcile (a_sub normed) n \<and>
           a_low a = spec_reconcile (a_low normed) n \<and>
           a_mid a = spec_reconcile (a_mid normed) n \<and>
           a_high a = spec_reconcile (a_high normed) n \<and>
           a_flatness a = spec_reconcile (a_flatness normed) n \<and>
           a_chroma a = map (\<lambda>row. spec_reconcile row n) (chroma_raw x) \<and>
           a_contrast a = map (\<lambda>row. spec_reconcile row n) (a_contrast normed) \<and>
           aligned_to n a \<and>
           (2 * seg_hop \<le> n \<longrightarrow> (\<exists>out files'. analyze_track agglo audio files p op = Inr (out, files'))) \<and>
           (\<forall>out files'. analyze_track agglo audio files p op = Inr (out, files') \<longrightarrow>
              length (frames out) = n \<and> totalFrames (meta out) = n)"
proof -
  have n: "n = n_frames_of (y_len x)" using assms(4) by (simp add: n_frames_of_def)
  obtain normed where nm: "normalize_all x = Inr normed" "stream_shapes normed"
    "a_chroma normed = chroma_raw x"
    using normalize_all_ok [OF assms(1)] by blast
  let ?a = "\<lparr>a_rms = spec_reconcile (a_rms normed) n, a_cent = spec_reconcile (a_cent normed) n,
            a_onset = spec_reconcile (a_onset normed) n, a_sub = spec_reconcile (a_sub normed) n,
            a_low = spec_reconcile (a_low normed) n, a_mid = spec_reconcile (a_mid normed) n,
            a_high = spec_reconcile (a_high normed) n,
            a_chroma = map (\<lambda>row. spec_reconcile row n) (a_chroma normed),
            a_contrast = map (\<lambda>row. spec_reconcile row n) (a_contrast normed),
            a_flatness = spec_reconcile (a_flatness normed) n\<rparr>"
  have al: "align_all normed n = Inr ?a" by (rule align_all_ok [OF nm(2)])
  have to: "aligned_to n ?a" by (rule aligned_to_reconcile [OF nm(2)])
  have ok: "2 * seg_hop \<le> n \<Longrightarrow> \<exists>out files'. analyze_track agglo audio files p op = Inr (out, files')"
  proof -
    assume "2 * seg_hop \<le> n"
    then obtain out where "analyze_audio agglo p x = Inr out"
      using analyze_audio_ok [OF assms(1) assms(2), of p] n by auto
    then show ?thesis by (simp add: analyze_track_def assms(3))
  qed
  have len: "length (frames out) = n \<and> totalFrames (meta out) = n"
    if "analyze_track agglo audio files p op = Inr (out, files')" for out files'
  proof -
    from that have "analyze_audio agglo p x = Inr out"
      by (auto simp: analyze_track_def assms(3) bnd_eq_Inr)
    then show ?thesis using analyze_audio_frames n by simp
  qed
  show ?thesis
    apply (rule exI [of _ normed])
    apply (rule exI [of _ ?a])
    using nm(1) al to ok len nm(3) apply simp
    done
qed

lemma shape1_replicate: "0 < k \<Longrightarrow> shape1 (replicate k r) = length r"
  by (cases k) (simp_all add: shape1_def)

lemma matrix_replicate: "0 < k \<Longrightarrow> 0 < m \<Longrightarrow> matrix k (replicate k (replicate m v))"
  by (simp add: matrix_def rectangular_def shape1_replicate)

lemma example_shapes: "librosa_shapes example_track"
  by (simp add: librosa_shapes_def example_track_def example_rms_def matrix_replicate
      rectangular_def shape1_replicate)

lemma chain_clusterer_length: "\<forall>k X. length (chain_clusterer k X) = length X"
  by (simp add: chain_clusterer_def)

lemma example_n_frames: "nat \<lceil>real (y_len example_track) / real SR * real FPS\<rceil> = 301"
  by (simp add: example_track_def SR_def FPS_def)

theorem frames_canonical_count_witness:
  "librosa_shapes example_track \<and>
   (\<forall>k X. length (chain_clusterer k X) = length X) \<and>
   example_audio ''t1.mp3'' = Some (Audio example_track) \<and>
   301 = nat \<lceil>real (y_len example_track) / real SR * real FPS\<rceil> \<and>
   (\<exists>out files'.
      analyze_track chain_clusterer example_audio Map.empty ''t1.mp3'' ''s1t01-analysis.json'' =
        Inr (out, files') \<and>
      length (frames out) = 301 \<and> totalFrames (meta out) = 301)"
proof -
  have a: "example_audio ''t1.mp3'' = Some (Audio example_track)"
    by (simp add: example_audio_def)
  have n: "301 = nat \<lceil>real (y_len example_track) / real SR * real FPS\<rceil>"
    by (rule example_n_frames [symmetric])
  have w: "2 * seg_hop \<le> (301 :: nat)" by (simp add: seg_hop_def FPS_def)
  from frames_canonical_count [where x = example_track and agglo = chain_clusterer
      and audio = example_audio and p = "''t1.mp3''" and n = 301 and files = Map.empty
      and op = "''s1t01-analysis.json''", OF example_shapes chain_clusterer_length a n] w
  show ?thesis using example_shapes chain_clusterer_length a n by blast
qed

section \<open>Rounding of the serialized output\<close>

lemma round_half_even_near: "\<bar>real_of_int (round_half_even r) - r\<bar> \<le> 1 / 2"
  unfolding round_half_even_def Let_def by (auto simp: abs_if) linarith+

lemma py_round_near:
  "(\<exists>z :: int. py_round x k = of_int z / 10 ^ k) \<and> \<bar>py_round x k - x\<bar> \<le> 1 / (2 * 10 ^ k)"
proof
  show "\<exists>z :: int. py_round x k = of_int z / 10 ^ k"
    unfolding py_round_def by blast
  have "py_round x k - x = (real_of_int (round_half_even (x * 10 ^ k)) - x * 10 ^ k) / 10 ^ k"
    unfolding py_round_def by (simp add: field_simps)
  then have "\<bar>py_round x k - x\<bar> = \<bar>real_of_int (round_half_even (x * 10 ^ k)) - x * 10 ^ k\<bar> / 10 ^ k"
    by (simp add: abs_divide)
  also have "\<dots> \<le> (1 / 2) / 10 ^ k"
    by (intro divide_right_mono round_half_even_near) simp
  finally show "\<bar>py_round x k - x\<bar> \<le> 1 / (2 * 10 ^ k)" by simp
qed

lemma mk_section_fields:
  "frameStart (mk_section r fs fe k) = fs \<and> frameEnd (mk_section r fs fe k) = fe \<and>
   avgEnergy (mk_section r fs fe k) =
     map_option (\<lambda>m. py_round m 3) (if fs < fe then np_mean (slice r fs fe) else Some 0)"
  by (simp add: mk_section_def Let_def)

lemma mk_section_avg:
  "avgEnergy (mk_section r fs fe k) =
     map_option (\<lambda>m. py_round m 3)
       (if frameStart (mk_section r fs fe k) < frameEnd (mk_section r fs fe k)
        then np_mean (slice r (frameStart (mk_section r fs fe k)) (frameEnd (mk_section r fs fe k)))
        else Some 0)"
  by (simp add: mk_section_def Let_def)

lemma merge_loop_avg:
  assumes "merge_loop r n ls i secs cur start = (secs', start')"
    and "\<forall>s \<in> set secs. avgEnergy s =
           map_option (\<lambda>m. py_round m 3)
             (if frameStart s < frameEnd s then np_mean (slice r (frameStart s) (frameEnd s)) else Some 0)"
  shows "\<forall>s \<in> set secs'. avgEnergy s =
           map_option (\<lambda>m. py_round m 3)
             (if frameStart s < frameEnd s then np_mean (slice r (frameStart s) (frameEnd s)) else Some 0)"
  using assms
proof (induction ls arbitrary: i secs cur start)
  case Nil
  then show ?case by simp
next
  case (Cons l ls)
  show ?case
  proof (cases "l \<noteq> cur")
    case True
    let ?s = "mk_section r (start * seg_hop) (min (i * seg_hop) n) (length secs)"
    have run: "merge_loop r n ls (i + 1) (secs @ [?s]) l i = (secs', start')"
      using Cons.prems(1) True by simp
    have "\<forall>s \<in> set (secs @ [?s]). avgEnergy s =
           map_option (\<lambda>m. py_round m 3)
             (if frameStart s < frameEnd s then np_mean (slice r (frameStart s) (frameEnd s)) else Some 0)"
      using Cons.prems(2) mk_section_avg [of r "start * seg_hop" "min (i * seg_hop) n" "length secs"]
      by auto
    from Cons.IH [OF run this] show ?thesis .
  next
    case False
    then have run: "merge_loop r n ls (i + 1) secs cur start = (secs', start')"
      using Cons.prems(1) by simp
    from Cons.IH [OF run Cons.prems(2)] show ?thesis .
  qed
qed

lemma detect_sections_avg:
  assumes "detect_sections agglo mf n r = Inr secs"
  shows "\<forall>s \<in> set secs. avgEnergy s =
           map_option (\<lambda>m. py_round m 3)
             (if frameStart s < frameEnd s then np_mean (slice r (frameStart s) (frameEnd s)) else Some 0)"
proof -
  from assms obtain labels where
    d: "(case labels of [] \<Rightarrow> Inl IndexError
        | l0 # ls \<Rightarrow>
            (case merge_loop r n ls (Suc 0) [] l0 0 of
               (secs', start') \<Rightarrow>
                 Inr (secs' @ [mk_section r (start' * seg_hop) n (length secs')]))) = Inr secs"
    by (auto simp: detect_sections_def Let_def bnd_eq_Inr)
  then obtain l0 ls where lab: "labels = l0 # ls" by (cases labels) auto
  obtain secs' start' where m: "merge_loop r n ls (Suc 0) [] l0 0 = (secs', start')"
    by (cases "merge_loop r n ls (Suc 0) [] l0 0") auto
  have secs: "secs = secs' @ [mk_section r (start' * seg_hop) n (length secs')]"
    using d lab m by simp
  have "\<forall>s \<in> set secs'. avgEnergy s =
           map_option (\<lambda>m. py_round m 3)
             (if frameStart s < frameEnd s then np_mean (slice r (frameStart s) (frameEnd s)) else Some 0)"
    by (rule merge_loop_avg [OF m]) simp
  then show ?thesis
    unfolding secs using mk_section_avg [of r "start' * seg_hop" n "length secs'"] by auto
qed

lemma frames_eq:
  assumes "aligned_to n a" and "mapM (frame_at a beats) [0..<n] = Inr fs"
  shows "fs = map (\<lambda>i.
           \<lparr>rms = py_round (a_rms a ! i) 4, centroid = py_round (a_cent a ! i) 4,
            onset = py_round (a_onset a ! i) 4, beat = (i \<in> set beats),
            sub = py_round (a_sub a ! i) 4, low = py_round (a_low a ! i) 4,
            mid = py_round (a_mid a ! i) 4, high = py_round (a_high a ! i) 4,
            chroma = map (\<lambda>c. py_round (a_chroma a ! c ! i) 3) [0..<12],
            contrast = map (\<lambda>c. py_round (a_contrast a ! c ! i) 3) [0..<7],
            flatness = py_round (a_flatness a ! i) 4\<rparr>) [0..<n]"
proof -
  have "mapM (frame_at a beats) [0..<n] = Inr (map (\<lambda>i.
           \<lparr>rms = py_round (a_rms a ! i) 4, centroid = py_round (a_cent a ! i) 4,
            onset = py_round (a_onset a ! i) 4, beat = (i \<in> set beats),
            sub = py_round (a_sub a ! i) 4, low = py_round (a_low a ! i) 4,
            mid = py_round (a_mid a ! i) 4, high = py_round (a_high a ! i) 4,
            chroma = map (\<lambda>c. py_round (a_chroma a ! c ! i) 3) [0..<12],
            contrast = map (\<lambda>c. py_round (a_contrast a ! c ! i) 3) [0..<7],
            flatness = py_round (a_flatness a ! i) 4\<rparr>) [0..<n])"
    by (rule mapM_map) (simp add: frame_at_ok [OF assms(1)])
  with assms(2) show ?thesis by simp
qed

lemma analyze_audio_output:
  assumes "librosa_shapes x" and "analyze_audio agglo p x = Inr out"
  shows "\<exists>normed a.
           normalize_all x = Inr normed \<and>
           align_all normed (n_frames_of (y_len x)) = Inr a \<and>
           aligned_to (n_frames_of (y_len x)) a \<and>
           a_rms a = spec_reconcile (a_rms normed) (n_frames_of (y_len x)) \<and>
           detect_sections agglo (mfcc x) (n_frames_of (y_len x)) (a_rms a) = Inr (sections (meta out)) \<and>
           frames out = map (\<lambda>i.
             \<lparr>rms = py_round (a_rms a ! i) 4, centroid = py_round (a_cent a ! i) 4,
              onset = py_round (a_onset a ! i) 4, beat = (i \<in> set (beat_frames x)),
              sub = py_round (a_sub a ! i) 4, low = py_round (a_low a ! i) 4,
              mid = py_round (a_mid a ! i) 4, high = py_round (a_high a ! i) 4,
              chroma = map (\<lambda>c. py_round (a_chroma a ! c ! i) 3) [0..<12],
              contrast = map (\<lambda>c. py_round (a_contrast a ! c ! i) 3) [0..<7],
              flatness = py_round (a_flatness a ! i) 4\<rparr>) [0..<n_frames_of (y_len x)] \<and>
           duration (meta out) = py_round (real (y_len x) / real SR) 2 \<and>
           tempo (meta out) = py_round (tempo_val x) 1 \<and>
           fps (meta out) = FPS \<and> sr (meta out) = SR \<and> hopLength (meta out) = HOP_LENGTH \<and>
           totalFrames (meta out) = n_frames_of (y_len x) \<and>
           source (meta out) = path_name p"
proof -
  let ?n = "n_frames_of (y_len x)"
  obtain normed where nm: "normalize_all x = Inr normed" "stream_shapes normed"
    using normalize_all_ok [OF assms(1)] by blast
  obtain a where a: "align_all normed ?n = Inr a" "aligned_to ?n a"
    "a_rms a = spec_reconcile (a_rms normed) ?n"
    using align_all_ok [OF nm(2), of ?n] aligned_to_reconcile [OF nm(2), of ?n] by simp
  from assms(2) obtain secs fs where
    secs: "detect_sections agglo (mfcc x) ?n (a_rms a) = Inr secs"
    and fs: "mapM (frame_at a (beat_frames x)) [0..<?n] = Inr fs"
    and out: "out = \<lparr>meta = \<lparr>source = path_name p, duration = py_round (real (y_len x) / real SR) 2,
                         fps = FPS, sr = SR, hopLength = HOP_LENGTH,
                         totalFrames = ?n, tempo = py_round (tempo_val x) 1,
                         sections = secs\<rparr>,
                frames = fs\<rparr>"
    unfolding analyze_audio_def Let_def by (auto simp: nm(1) a(1) bnd_eq_Inr)
  have "frames out = fs" by (simp add: out)
  then show ?thesis
    using nm(1) a secs frames_eq [OF a(2) fs] by (intro exI [of _ normed] exI [of _ a]) (simp add: out)
qed

lemma example_means:
  "np_mean (slice example_rms 0 150) = Some (149 / 300) \<and>
   np_mean (slice example_rms 150 301) = Some (76 / 151)"
  by code_simp

lemma str_nat_0_1: "str_nat 0 = ''0'' \<and> str_nat 1 = ''1''"
  by code_simp

lemma example_section_0:
  "mk_section example_rms 0 150 0 =
     \<lparr>frameStart = 0, frameEnd = 150, label = ''section_0'', energy = ''mid'',
      avgEnergy = Some (497 / 1000)\<rparr>"
  using example_means str_nat_0_1
  by (simp add: mk_section_def Let_def py_round_def round_half_even_def)

lemma example_section_1:
  "mk_section example_rms 150 301 1 =
     \<lparr>frameStart = 150, frameEnd = 301, label = ''section_1'', energy = ''high'',
      avgEnergy = Some (503 / 1000)\<rparr>"
  using example_means str_nat_0_1
  by (simp add: mk_section_def Let_def py_round_def round_half_even_def)

lemma example_labels:
  "chain_clusterer (n_clusters_of (n_segs_of 301)) (map (seg_feature mf) [0..<n_segs_of 301]) = [0, 1]"
proof -
  have n: "n_segs_of 301 = 2" by (simp add: n_segs_of_def seg_hop_def FPS_def)
  have k: "n_clusters_of 2 = 2" by (simp add: n_clusters_of_def)
  have u: "[0..<2] = [0, Suc 0]" by (simp add: upt_conv_Cons)
  show ?thesis by (simp add: n k chain_clusterer_def u)
qed

lemma example_sections:
  "detect_sections chain_clusterer mf 301 example_rms =
     Inr [\<lparr>frameStart = 0, frameEnd = 150, label = ''section_0'', energy = ''mid'',
            avgEnergy = Some (497 / 1000)\<rparr>,
          \<lparr>frameStart = 150, frameEnd = 301, label = ''section_1'', energy = ''high'',
            avgEnergy = Some (503 / 1000)\<rparr>]"
proof -
  have h: "seg_hop = 150" by (simp add: seg_hop_def FPS_def)
  have m: "merge_loop example_rms 301 [1] 1 [] 0 0 = ([mk_section example_rms 0 150 0], 1)"
    by (simp add: h)
  show ?thesis
    unfolding detect_sections_eq [OF chain_clusterer_length] Let_def example_labels
    by (simp add: m) (simp add: h example_section_0 example_section_1 [simplified])
qed

lemma normalize_all_rms:
  "normalize_all x = Inr normed \<Longrightarrow> normalize (rms_raw x) = Inr (a_rms normed)"
  unfolding normalize_all_def by (auto simp: bnd_eq_Inr)

lemma analyze_audio_meta:
  assumes "librosa_shapes x" and "analyze_audio agglo p x = Inr out"
  shows "duration (meta out) = py_round (real (y_len x) / real SR) 2 \<and>
         tempo (meta out) = py_round (tempo_val x) 1 \<and>
         (\<exists>r. normalize (rms_raw x) = Inr r \<and>
              detect_sections agglo (mfcc x) (n_frames_of (y_len x))
                (spec_reconcile r (n_frames_of (y_len x))) = Inr (sections (meta out)))"
proof -
  from analyze_audio_output [OF assms] obtain normed and a :: aligned where
    h: "normalize_all x = Inr normed"
      "a_rms a = spec_reconcile (a_rms normed) (n_frames_of (y_len x))"
      "detect_sections agglo (mfcc x) (n_frames_of (y_len x)) (a_rms a) = Inr (sections (meta out))"
      "duration (meta out) = py_round (real (y_len x) / real SR) 2"
      "tempo (meta out) = py_round (tempo_val x) 1"
    by blast
  from normalize_all_rms [OF h(1)] h(2,3) have
    "normalize (rms_raw x) = Inr (a_rms normed) \<and>
     detect_sections agglo (mfcc x) (n_frames_of (y_len x))
       (spec_reconcile (a_rms normed) (n_frames_of (y_len x))) = Inr (sections (meta out))"
    by simp
  then show ?thesis using h(4,5) by blast
qed

lemma example_rms_normalized: "normalize example_rms = Inr example_rms"
  by code_simp

lemma example_rms_length: "length example_rms = 301"
  by (simp add: example_rms_def)

lemma example_n_frames_of: "n_frames_of (y_len example_track) = 301"
  by (simp add: example_track_def n_frames_of_def SR_def FPS_def)

lemma example_returns: "\<exists>out. analyze_audio chain_clusterer p example_track = Inr out"
  by (rule analyze_audio_ok [OF example_shapes chain_clusterer_length])
     (simp add: example_n_frames_of seg_hop_def FPS_def)

text \<open>
  C8, as amended.  Of every output of the pipeline, each scalar of a frame is the aligned
  value rounded to 4 decimal places and each chroma and contrast element the aligned value
  rounded to 3; of the metadata, \<open>duration\<close> is rounded to 2 places, \<open>tempo\<close> to 1 place
  and the \<open>avgEnergy\<close> of every section to 3 places (NaN staying NaN); \<open>fps\<close>, \<open>sr\<close>,
  \<open>hopLength\<close> and \<open>totalFrames\<close> are integers and are not rounded.
\<close>

theorem output_rounding:
  assumes "librosa_shapes x" and "analyze_audio agglo p x = Inr out"
  shows "\<exists>normed a.
           normalize_all x = Inr normed \<and>
           align_all normed (n_frames_of (y_len x)) = Inr a \<and>
           frames out = map (\<lambda>i.
             \<lparr>rms = py_round (a_rms a ! i) 4, centroid = py_round (a_cent a ! i) 4,
              onset = py_round (a_onset a ! i) 4, beat = (i \<in> set (beat_frames x)),
              sub = py_round (a_sub a ! i) 4, low = py_round (a_low a ! i) 4,
              mid = py_round (a_mid a ! i) 4, high = py_round (a_high a ! i) 4,
              chroma = map (\<lambda>c. py_round (a_chroma a ! c ! i) 3) [0..<12],
              contrast = map (\<lambda>c. py_round (a_contrast a ! c ! i) 3) [0..<7],
              flatness = py_round (a_flatness a ! i) 4\<rparr>) [0..<n_frames_of (y_len x)] \<and>
           duration (meta out) = py_round (real (y_len x) / real SR) 2 \<and>
           tempo (meta out) = py_round (tempo_val x) 1 \<and>
           (\<forall>s \<in> set (sections (meta out)). avgEnergy s =
              map_option (\<lambda>m. py_round m 3)
                (if frameStart s < frameEnd s
                 then np_mean (slice (a_rms a) (frameStart s) (frameEnd s)) else Some 0)) \<and>
           fps (meta out) = 30 \<and> sr (meta out) = 22050 \<and> hopLength (meta out) = 735 \<and>
           totalFrames (meta out) = n_frames_of (y_len x)"
proof -
  from analyze_audio_output [OF assms] obtain normed a where
    h: "normalize_all x = Inr normed" "align_all normed (n_frames_of (y_len x)) = Inr a"
      "detect_sections agglo (mfcc x) (n_frames_of (y_len x)) (a_rms a) = Inr (sections (meta out))"
      "frames out = map (\<lambda>i.
             \<lparr>rms = py_round (a_rms a ! i) 4, centroid = py_round (a_cent a ! i) 4,
              onset = py_round (a_onset a ! i) 4, beat = (i \<in> set (beat_frames x)),
              sub = py_round (a_sub a ! i) 4, low = py_round (a_low a ! i) 4,
              mid = py_round (a_mid a ! i) 4, high = py_round (a_high a ! i) 4,
              chroma = map (\<lambda>c. py_round (a_chroma a ! c ! i) 3) [0..<12],
              contrast = map (\<lambda>c. py_round (a_contrast a ! c ! i) 3) [0..<7],
              flatness = py_round (a_flatness a ! i) 4\<rparr>) [0..<n_frames_of (y_len x)]"
      "duration (meta out) = py_round (real (y_len x) / real SR) 2"
      "tempo (meta out) = py_round (tempo_val x) 1"
      "fps (meta out) = FPS" "sr (meta out) = SR" "hopLength (meta out) = HOP_LENGTH"
      "totalFrames (meta out) = n_frames_of (y_len x)"
    by blast
  note avg = detect_sections_avg [OF h(3)]
  show ?thesis
    apply (rule exI [of _ normed])
    apply (rule exI [of _ a])
    using h(1,2,4,5,6,10) avg apply (simp add: h(7,8,9) FPS_def SR_def HOP_LENGTH_def)
    done
qed

theorem output_rounding_witness:
  "librosa_shapes example_track \<and>
   (\<exists>out. analyze_audio chain_clusterer ''t1.mp3'' example_track = Inr out \<and>
      duration (meta out) = 10 \<and> tempo (meta out) = 1201 / 10 \<and> length (frames out) = 301)"
proof -
  obtain out where out: "analyze_audio chain_clusterer ''t1.mp3'' example_track = Inr out"
    using example_returns by blast
  from output_rounding [OF example_shapes out]
  have "duration (meta out) = py_round (real (y_len example_track) / real SR) 2"
    and "tempo (meta out) = py_round (tempo_val example_track) 1"
    and "length (frames out) = n_frames_of (y_len example_track)"
    by auto
  then have "duration (meta out) = 10 \<and> tempo (meta out) = 1201 / 10 \<and> length (frames out) = 301"
    by (simp add: example_n_frames_of)
       (simp add: example_track_def SR_def py_round_def round_half_even_def Let_def)
  with out example_shapes show ?thesis by blast
qed

text \<open>
  C8 as stated fails on the example track.  Its duration of 220600 / 22050 seconds is
  written as 10.0, where 4 decimal places give 10.0045; its tempo 120.1234 is written as
  120.1; the mean energy 149 / 300 of its first section is written as 0.497, where
  4 decimal places give 0.4967.
\<close>

theorem output_rounding_counterexample:
  "\<exists>out. analyze_audio chain_clusterer ''t1.mp3'' example_track = Inr out \<and>
     duration (meta out) = 10 \<and>
     py_round (real (y_len example_track) / real SR) 4 = 100045 / 10000 \<and>
     tempo (meta out) = 1201 / 10 \<and>
     py_round (tempo_val example_track) 4 = 1201234 / 10000 \<and>
     map avgEnergy (sections (meta out)) = [Some (497 / 1000), Some (503 / 1000)] \<and>
     map_option (\<lambda>m. py_round m 4) (np_mean (slice example_rms 0 150)) = Some (4967 / 10000)"
proof -
  obtain out where out: "analyze_audio chain_clusterer ''t1.mp3'' example_track = Inr out"
    using example_returns by blast
  note m = analyze_audio_meta [OF example_shapes out]
  from m obtain r where
    r: "normalize (rms_raw example_track) = Inr r"
    and ds: "detect_sections chain_clusterer (mfcc example_track) (n_frames_of (y_len example_track))
         (spec_reconcile r (n_frames_of (y_len example_track))) = Inr (sections (meta out))"
    by blast
  have h4: "duration (meta out) = py_round (real (y_len example_track) / real SR) 2"
    and h5: "tempo (meta out) = py_round (tempo_val example_track) 1"
    using m by simp_all
  have "normalize example_rms = Inr r"
    using r by (simp add: example_track_def)
  then have "r = example_rms" by (simp add: example_rms_normalized)
  then have "spec_reconcile r 301 = example_rms"
    by (simp add: spec_reconcile_def example_rms_length)
  then have secs: "sections (meta out) =
     [\<lparr>frameStart = 0, frameEnd = 150, label = ''section_0'', energy = ''mid'',
        avgEnergy = Some (497 / 1000)\<rparr>,
      \<lparr>frameStart = 150, frameEnd = 301, label = ''section_1'', energy = ''high'',
        avgEnergy = Some (503 / 1000)\<rparr>]"
    using ds by (simp add: example_n_frames_of example_sections)
  have d: "duration (meta out) = 10"
    by (simp add: h4) (simp add: example_track_def SR_def py_round_def round_half_even_def Let_def)
  have d4: "py_round (real (y_len example_track) / real SR) 4 = 100045 / 10000"
    by (simp add: example_track_def SR_def py_round_def round_half_even_def Let_def)
  have t: "tempo (meta out) = 1201 / 10"
    by (simp add: h5) (simp add: example_track_def py_round_def round_half_even_def Let_def)
  have t4: "py_round (tempo_val example_track) 4 = 1201234 / 10000"
    by (simp add: example_track_def py_round_def round_half_even_def Let_def)
  have m4: "map_option (\<lambda>m. py_round m 4) (np_mean (slice example_rms 0 150)) = Some (4967 / 10000)"
    using example_means by (simp add: py_round_def round_half_even_def Let_def)
  show ?thesis
    using out d d4 t t4 m4 by (intro exI [of _ out]) (simp add: secs)
qed

section \<open>Properties of the show batch runner\<close>

subsection \<open>One song\<close>

lemma process_song_missing:
  assumes "audio (audioFile s) = None"
  shows "process_song resume agglo audio s st =
           Inr (st\<lparr>timeline_tracks := timeline_tracks st @
                      [\<lparr>e_trackId = trackId s, globalFrameStart = global_offset st,
                        globalFrameEnd = global_offset st, e_totalFrames = 0,
                        missing = True\<rparr>],
                    printed := printed st @ [SKIP (audioFile s)]\<rparr>)"
  using assms by (simp add: process_song_def Let_def)

lemma process_song_resumed:
  assumes "audio (audioFile s) \<noteq> None" and "resume"
    and "tracks_files st (output_path_of (trackId s)) = Some existing"
  shows "process_song resume agglo audio s st =
           Inr (st\<lparr>timeline_tracks := timeline_tracks st @
                      [\<lparr>e_trackId = trackId s, globalFrameStart = global_offset st,
                        globalFrameEnd = global_offset st + totalFrames (meta existing),
                        e_totalFrames = totalFrames (meta existing), missing = False\<rparr>],
                    global_offset := global_offset st + totalFrames (meta existing),
                    total_duration := total_duration st + duration (meta existing),
                    tracks_files := tracks_files st,
                    printed := printed st @ [RESUME (trackId s)]\<rparr>)"
  using assms by (auto simp: process_song_def Let_def)

lemma process_song_fresh:
  assumes "audio (audioFile s) = Some (Audio x)"
    and "\<not> resume \<or> tracks_files st (output_path_of (trackId s)) = None"
    and "analyze_audio agglo (audioFile s) x = Inr out"
  shows "process_song resume agglo audio s st =
           Inr (st\<lparr>timeline_tracks := timeline_tracks st @
                      [\<lparr>e_trackId = trackId s, globalFrameStart = global_offset st,
                        globalFrameEnd = global_offset st + totalFrames (meta out),
                        e_totalFrames = totalFrames (meta out), missing = False\<rparr>],
                    global_offset := global_offset st + totalFrames (meta out),
                    total_duration := total_duration st + duration (meta out),
                    tracks_files := (tracks_files st)(output_path_of (trackId s) \<mapsto> out),
                    printed := printed st @ [ANALYZING (trackId s)]\<rparr>)"
  using assms by (auto simp: process_song_def Let_def analyze_track_def)

lemma process_song_fresh_fails:
  assumes "audio (audioFile s) = Some f"
    and "\<not> resume \<or> tracks_files st (output_path_of (trackId s)) = None"
    and "f = Corrupt \<or> (\<exists>x. f = Audio x \<and> analyze_audio agglo (audioFile s) x = Inl e \<and> e' = e)"
    and "f = Corrupt \<longrightarrow> e' = DecodeError"
  shows "process_song resume agglo audio s st = Inl e'"
  using assms by (auto simp: process_song_def Let_def analyze_track_def)

text \<open>
  C10.  A song whose audio file is absent gets the placeholder entry and the line
  \<open>SKIP\<close>, whatever the resume flag and whatever the tracks directory \<open>F\<close> holds for it:
  the result does not depend on \<open>F\<close>, which is handed on unchanged.  The line \<open>RESUME\<close>,
  printed just before the persisted analysis is loaded, appears only for a song whose audio
  file is present, with the resume flag set and a persisted analysis in place.
\<close>

theorem missing_precedes_resume:
  "(audio (audioFile s) = None \<longrightarrow>
      process_song resume agglo audio s (st\<lparr>tracks_files := F\<rparr>) =
        Inr (st\<lparr>timeline_tracks := timeline_tracks st @
                   [\<lparr>e_trackId = trackId s, globalFrameStart = global_offset st,
                     globalFrameEnd = global_offset st, e_totalFrames = 0,
                     missing = True\<rparr>],
                 printed := printed st @ [SKIP (audioFile s)],
                 tracks_files := F\<rparr>)) \<and>
   (\<forall>st'. process_song resume agglo audio s st = Inr st' \<and>
          printed st' = printed st @ [RESUME (trackId s)] \<longrightarrow>
          audio (audioFile s) \<noteq> None \<and> resume \<and>
          tracks_files st (output_path_of (trackId s)) \<noteq> None)"
proof (intro conjI impI allI)
  assume "audio (audioFile s) = None"
  then show "process_song resume agglo audio s (st\<lparr>tracks_files := F\<rparr>) =
        Inr (st\<lparr>timeline_tracks := timeline_tracks st @
                   [\<lparr>e_trackId = trackId s, globalFrameStart = global_offset st,
                     globalFrameEnd = global_offset st, e_totalFrames = 0,
                     missing = True\<rparr>],
                 printed := printed st @ [SKIP (audioFile s)],
                 tracks_files := F\<rparr>)"
    by (simp add: process_song_missing)
next
  fix st'
  assume a: "process_song resume agglo audio s st = Inr st' \<and>
          printed st' = printed st @ [RESUME (trackId s)]"
  show "audio (audioFile s) \<noteq> None"
  proof
    assume "audio (audioFile s) = None"
    from process_song_missing [where audio = audio and s = s and resume = resume
        and agglo = agglo and st = st, OF this] a show False by auto
  qed
  then obtain f where f: "audio (audioFile s) = Some f" by auto
  show "resume"
  proof (rule ccontr)
    assume "\<not> resume"
    with a f show False
      by (auto simp: process_song_def Let_def bnd_eq_Inr split: option.splits if_splits)
  qed
  show "tracks_files st (output_path_of (trackId s)) \<noteq> None"
  proof
    assume "tracks_files st (output_path_of (trackId s)) = None"
    with a f show False
      by (auto simp: process_song_def Let_def bnd_eq_Inr split: option.splits if_splits)
  qed
qed

theorem missing_precedes_resume_witness:
  "example_audio ''t2.mp3'' = None \<and>
   [''s1t02-analysis.json'' \<mapsto> example_persisted] (output_path_of ''s1t02'') = Some example_persisted \<and>
   (\<exists>st'. process_song True chain_clusterer example_audio
        \<lparr>trackId = ''s1t02'', title = ''two'', audioFile = ''t2.mp3''\<rparr>
        ((initial_state Map.empty)\<lparr>tracks_files := [''s1t02-analysis.json'' \<mapsto> example_persisted]\<rparr>) = Inr st' \<and>
      timeline_tracks st' =
        [\<lparr>e_trackId = ''s1t02'', globalFrameStart = 0, globalFrameEnd = 0, e_totalFrames = 0,
          missing = True\<rparr>] \<and>
      printed st' = [SKIP ''t2.mp3''])"
proof -
  have m: "example_audio ''t2.mp3'' = None" by (simp add: example_audio_def)
  have p: "[''s1t02-analysis.json'' \<mapsto> example_persisted] (output_path_of ''s1t02'') = Some example_persisted"
    by (simp add: output_path_of_def)
  from missing_precedes_resume [where audio = example_audio
      and s = "\<lparr>trackId = ''s1t02'', title = ''two'', audioFile = ''t2.mp3''\<rparr>"
      and resume = True and agglo = chain_clusterer and st = "initial_state Map.empty"
      and F = "[''s1t02-analysis.json'' \<mapsto> example_persisted]"]
  show ?thesis using m p by (simp add: initial_state_def)
qed

subsection \<open>Errors of the pipeline and of the batch\<close>

lemma bnd_eq_Inl: "bnd m f = Inl e \<longleftrightarrow> m = Inl e \<or> (\<exists>x. m = Inr x \<and> f x = Inl e)"
  by (cases m) simp_all

lemma mapM_Inl: "mapM f xs = Inl e \<Longrightarrow> \<exists>x \<in> set xs. f x = Inl e"
  by (induction xs) (auto simp: bnd_eq_Inl)

lemma normalize_err: "normalize arr = Inl e \<Longrightarrow> e = ValueError"
  by (cases arr) (auto simp: normalize_def split: if_splits)

lemma band_energy_err: "band_energy S fs lo hi = Inl e \<Longrightarrow> e = IndexError"
  by (auto simp: band_energy_def Let_def split: if_splits)

lemma np_pad_edge_err: "np_pad_edge arr k = Inl e \<Longrightarrow> e = ValueError"
  by (auto simp: np_pad_edge_def split: if_splits)

lemma pad_or_trim_err: "pad_or_trim arr n = Inl e \<Longrightarrow> e = ValueError"
  by (auto simp: pad_or_trim_def split: if_splits dest: np_pad_edge_err)

lemma pad_or_trim_2d_err: "pad_or_trim_2d arr n = Inl e \<Longrightarrow> e = ValueError"
  by (auto simp: pad_or_trim_2d_def split: if_splits dest!: mapM_Inl np_pad_edge_err)

lemma get_err: "get xs i = Inl e \<Longrightarrow> e = IndexError"
  by (auto simp: get_def split: if_splits)

lemma get2_err: "get2 a c i = Inl e \<Longrightarrow> e = IndexError"
  by (auto simp: get2_def bnd_eq_Inl dest: get_err)

lemma normalize_all_err: "normalize_all x = Inl e \<Longrightarrow> e = ValueError \<or> e = IndexError"
  unfolding normalize_all_def
  by (auto simp: bnd_eq_Inl dest!: mapM_Inl dest: normalize_err band_energy_err)

lemma align_all_err: "align_all a n = Inl e \<Longrightarrow> e = ValueError"
  unfolding align_all_def
  by (auto simp: bnd_eq_Inl dest: pad_or_trim_err pad_or_trim_2d_err)

lemma frame_at_err: "frame_at a beats i = Inl e \<Longrightarrow> e = IndexError"
  unfolding frame_at_def
  by (auto simp: bnd_eq_Inl dest!: mapM_Inl dest: get_err get2_err)

lemma detect_sections_err: "detect_sections agglo mf n r = Inl e \<Longrightarrow> e = ValueError \<or> e = IndexError"
  unfolding detect_sections_def Let_def fit_predict_def
  by (auto simp: bnd_eq_Inl split: if_splits list.splits prod.splits)

lemma analyze_audio_err: "analyze_audio agglo p x = Inl e \<Longrightarrow> e = ValueError \<or> e = IndexError"
  unfolding analyze_audio_def Let_def
  by (auto simp: bnd_eq_Inl dest!: mapM_Inl
      dest: normalize_all_err align_all_err detect_sections_err frame_at_err)

lemma analyze_track_err:
  "analyze_track agglo audio files p op = Inl e \<Longrightarrow>
     (audio p = None \<and> e = SystemExit 1) \<or> (audio p = Some Corrupt \<and> e = DecodeError) \<or>
     ((\<exists>x. audio p = Some (Audio x)) \<and> (e = ValueError \<or> e = IndexError))"
  unfolding analyze_track_def
  by (auto simp: bnd_eq_Inl split: option.splits audio_file.splits dest: analyze_audio_err)

lemma process_song_err:
  "process_song resume agglo audio s st = Inl e \<Longrightarrow>
     (audio (audioFile s) = Some Corrupt \<and> e = DecodeError) \<or>
     ((\<exists>x. audio (audioFile s) = Some (Audio x)) \<and> (e = ValueError \<or> e = IndexError))"
  unfolding process_song_def Let_def
  by (auto simp: bnd_eq_Inl split: if_splits option.splits dest!: analyze_track_err)

text \<open>
  C9, as amended.  When the audio file does not exist, the single-track pipeline ends the
  process with exit status 1 (\<open>sys.exit(1)\<close>); when the file cannot be decoded, the
  exception of the decoder leaves the pipeline as it is; no path raises an
  \<open>AudioLoadError\<close>.  The batch runner tests for the file before it calls the pipeline: a
  missing file yields the placeholder entry and the run goes on with the next song, while
  an undecodable file that has to be analyzed ends the batch with the decoder's error.
\<close>

theorem missing_audio_exits:
  "(audio p = None \<longrightarrow> analyze_track agglo audio files p op = Inl (SystemExit 1)) \<and>
   (audio p = Some Corrupt \<longrightarrow> analyze_track agglo audio files p op = Inl DecodeError) \<and>
   analyze_track agglo audio files p op \<noteq> Inl AudioLoadError \<and>
   (audio (audioFile s) = None \<longrightarrow>
      (\<exists>st'. process_song resume agglo audio s st = Inr st' \<and>
         missing (last (timeline_tracks st')) \<and>
         length (timeline_tracks st') = Suc (length (timeline_tracks st)))) \<and>
   (audio (audioFile s) = Some Corrupt \<and>
    (\<not> resume \<or> tracks_files st (output_path_of (trackId s)) = None) \<longrightarrow>
      process_song resume agglo audio s st = Inl DecodeError)"
proof (intro conjI impI)
  show "analyze_track agglo audio files p op = Inl (SystemExit 1)" if "audio p = None"
    using that by (simp add: analyze_track_def)
  show "analyze_track agglo audio files p op = Inl DecodeError" if "audio p = Some Corrupt"
    using that by (simp add: analyze_track_def)
  show "analyze_track agglo audio files p op \<noteq> Inl AudioLoadError"
    using analyze_track_err [of agglo audio files p op AudioLoadError] by auto
  show "\<exists>st'. process_song resume agglo audio s st = Inr st' \<and>
         missing (last (timeline_tracks st')) \<and>
         length (timeline_tracks st') = Suc (length (timeline_tracks st))"
    if "audio (audioFile s) = None"
    using that by (simp add: process_song_missing)
  show "process_song resume agglo audio s st = Inl DecodeError"
    if "audio (audioFile s) = Some Corrupt \<and>
        (\<not> resume \<or> tracks_files st (output_path_of (trackId s)) = None)"
    using that by (auto simp: process_song_def Let_def analyze_track_def)
qed

theorem missing_audio_exits_witness:
  "example_audio ''t2.mp3'' = None \<and>
   analyze_track chain_clusterer example_audio Map.empty ''t2.mp3'' ''s1t02-analysis.json'' =
     Inl (SystemExit 1) \<and>
   [''bad.mp3'' \<mapsto> Corrupt] ''bad.mp3'' = Some Corrupt \<and>
   analyze_track chain_clusterer [''bad.mp3'' \<mapsto> Corrupt] Map.empty ''bad.mp3'' ''x-analysis.json'' =
     Inl DecodeError \<and>
   process_song False chain_clusterer [''bad.mp3'' \<mapsto> Corrupt]
     \<lparr>trackId = ''x'', title = ''x'', audioFile = ''bad.mp3''\<rparr> (initial_state Map.empty) =
     Inl DecodeError \<and>
   (\<exists>st'. process_song False chain_clusterer example_audio
      \<lparr>trackId = ''s1t02'', title = ''two'', audioFile = ''t2.mp3''\<rparr> (initial_state Map.empty) =
      Inr st')"
proof -
  have a: "example_audio ''t2.mp3'' = None" by (simp add: example_audio_def)
  have b: "[''bad.mp3'' \<mapsto> Corrupt] ''bad.mp3'' = Some Corrupt" by simp
  from missing_audio_exits [where audio = example_audio and p = "''t2.mp3''"
      and agglo = chain_clusterer and files = Map.empty and op = "''s1t02-analysis.json''"
      and s = "\<lparr>trackId = ''s1t02'', title = ''two'', audioFile = ''t2.mp3''\<rparr>"
      and resume = False and st = "initial_state Map.empty"]
    missing_audio_exits [where audio = "[''bad.mp3'' \<mapsto> Corrupt]" and p = "''bad.mp3''"
      and agglo = chain_clusterer and files = Map.empty and op = "''x-analysis.json''"
      and s = "\<lparr>trackId = ''x'', title = ''x'', audioFile = ''bad.mp3''\<rparr>"
      and resume = False and st = "initial_state Map.empty"]
  show ?thesis using a b by auto
qed

text \<open>
  C9 as stated fails: on a missing file the pipeline ends with \<open>SystemExit 1\<close> and on an
  undecodable file with the error of the decoder; neither is an \<open>AudioLoadError\<close>.
\<close>

theorem missing_audio_counterexample:
  "analyze_track chain_clusterer example_audio Map.empty ''t2.mp3'' ''s1t02-analysis.json'' =
     Inl (SystemExit 1) \<and>
   analyze_track chain_clusterer example_audio Map.empty ''t2.mp3'' ''s1t02-analysis.json'' \<noteq>
     Inl AudioLoadError \<and>
   analyze_track chain_clusterer [''bad.mp3'' \<mapsto> Corrupt] Map.empty ''bad.mp3'' ''x-analysis.json'' =
     Inl DecodeError \<and>
   analyze_track chain_clusterer [''bad.mp3'' \<mapsto> Corrupt] Map.empty ''bad.mp3'' ''x-analysis.json'' \<noteq>
     Inl AudioLoadError"
  by (simp add: analyze_track_def example_audio_def)

subsection \<open>The timeline\<close>

lemma entries_chain_append:
  "entries_chain a (xs @ ys) c \<longleftrightarrow> (\<exists>b. entries_chain a xs b \<and> entries_chain b ys c)"
  by (induction xs arbitrary: a) auto

lemma entries_chain_le: "entries_chain a es b \<Longrightarrow> a \<le> b"
proof (induction es arbitrary: a)
  case Nil
  then show ?case by simp
next
  case (Cons e es)
  then have "a \<le> globalFrameEnd e" "globalFrameEnd e \<le> b" by auto
  then show ?case by simp
qed

lemma entries_chain_sum:
  "entries_chain a es b \<Longrightarrow> b = a + sum_list (map e_totalFrames es)"
proof (induction es arbitrary: a)
  case Nil
  then show ?case by simp
next
  case (Cons e es)
  then have "b = globalFrameEnd e + sum_list (map e_totalFrames es)"
    and "globalFrameEnd e = a + e_totalFrames e"
    by auto
  then show ?case by simp
qed

lemma entries_chain_present_sum:
  "entries_chain a es b \<Longrightarrow>
     sum_list (map e_totalFrames (filter (\<lambda>e. \<not> missing e) es)) = sum_list (map e_totalFrames es)"
  by (induction es arbitrary: a) auto

lemma entries_chain_nth:
  "entries_chain a es b \<Longrightarrow> Suc i < length es \<Longrightarrow>
     globalFrameStart (es ! Suc i) = globalFrameEnd (es ! i)"
proof (induction es arbitrary: a i)
  case Nil
  then show ?case by simp
next
  case (Cons e es)
  show ?case
  proof (cases i)
    case 0
    with Cons.prems show ?thesis by (cases es) auto
  next
    case (Suc j)
    with Cons show ?thesis by auto
  qed
qed

lemma entries_chain_each:
  "entries_chain a es b \<Longrightarrow> e \<in> set es \<Longrightarrow>
     globalFrameEnd e = globalFrameStart e + e_totalFrames e \<and>
     (missing e \<longrightarrow> globalFrameStart e = globalFrameEnd e \<and> e_totalFrames e = 0)"
  by (induction es arbitrary: a) auto

lemma entries_chain_hd: "entries_chain a es b \<Longrightarrow> es \<noteq> [] \<Longrightarrow> globalFrameStart (hd es) = a"
  by (cases es) auto

lemma entries_chain_last: "entries_chain a es b \<Longrightarrow> es \<noteq> [] \<Longrightarrow> globalFrameEnd (last es) = b"
  by (induction es arbitrary: a) auto

lemma process_song_present:
  assumes "audio (audioFile s) \<noteq> None" and "process_song resume agglo audio s st = Inr st'"
  shows "\<exists>total_frames track_duration files' ev.
           st' = st\<lparr>timeline_tracks := timeline_tracks st @
                      [\<lparr>e_trackId = trackId s, globalFrameStart = global_offset st,
                        globalFrameEnd = global_offset st + total_frames,
                        e_totalFrames = total_frames, missing = False\<rparr>],
                    global_offset := global_offset st + total_frames,
                    total_duration := total_duration st + track_duration,
                    tracks_files := files',
                    printed := printed st @ [ev]\<rparr>"
proof (cases "resume \<and> tracks_files st (output_path_of (trackId s)) \<noteq> None")
  case True
  then obtain existing where ex: "tracks_files st (output_path_of (trackId s)) = Some existing"
    by auto
  from True have r: resume by simp
  from process_song_resumed [where audio = audio and s = s and agglo = agglo and st = st,
      OF assms(1) r ex] assms(2)
  show ?thesis by (metis sum.inject(2))
next
  case False
  then have nf: "\<not> resume \<or> tracks_files st (output_path_of (trackId s)) = None" by auto
  from assms(1) obtain f where f: "audio (audioFile s) = Some f" by auto
  show ?thesis
  proof (cases f)
    case Corrupt
    have "process_song resume agglo audio s st = Inl DecodeError"
      by (rule process_song_fresh_fails [where audio = audio and s = s and st = st, OF f nf]) (simp_all add: Corrupt)
    with assms(2) show ?thesis by simp
  next
    case (Audio x)
    show ?thesis
    proof (cases "analyze_audio agglo (audioFile s) x")
      case (Inl e)
      have "process_song resume agglo audio s st = Inl e"
        by (rule process_song_fresh_fails [where audio = audio and s = s and st = st, OF f nf]) (simp_all add: Audio Inl)
      with assms(2) show ?thesis by simp
    next
      case (Inr out)
      from process_song_fresh [where audio = audio and s = s and resume = resume and st = st,
          OF f [unfolded Audio] nf Inr] assms(2)
      show ?thesis by (metis sum.inject(2))
    qed
  qed
qed

lemma process_song_entry:
  assumes "process_song resume agglo audio s st = Inr st'"
  shows "\<exists>e. timeline_tracks st' = timeline_tracks st @ [e] \<and>
           e_trackId e = trackId s \<and>
           missing e = (audio (audioFile s) = None) \<and>
           entries_chain (global_offset st) [e] (global_offset st') \<and>
           (audio (audioFile s) = None \<longrightarrow> total_duration st' = total_duration st)"
proof (cases "audio (audioFile s) = None")
  case True
  from process_song_missing [where audio = audio and s = s and resume = resume
      and agglo = agglo and st = st, OF True] assms
  have "st' = st\<lparr>timeline_tracks := timeline_tracks st @
                      [\<lparr>e_trackId = trackId s, globalFrameStart = global_offset st,
                        globalFrameEnd = global_offset st, e_totalFrames = 0,
                        missing = True\<rparr>],
                    printed := printed st @ [SKIP (audioFile s)]\<rparr>"
    by simp
  then show ?thesis using True by simp
next
  case False
  from process_song_present [OF False assms] obtain total_frames track_duration files' ev where
    "st' = st\<lparr>timeline_tracks := timeline_tracks st @
                      [\<lparr>e_trackId = trackId s, globalFrameStart = global_offset st,
                        globalFrameEnd = global_offset st + total_frames,
                        e_totalFrames = total_frames, missing = False\<rparr>],
                    global_offset := global_offset st + total_frames,
                    total_duration := total_duration st + track_duration,
                    tracks_files := files',
                    printed := printed st @ [ev]\<rparr>"
    by (elim exE)
  then show ?thesis using False by auto
qed

lemma run_songs_entries:
  assumes "run_songs resume agglo audio ss st = Inr st'"
  shows "\<exists>es. timeline_tracks st' = timeline_tracks st @ es \<and>
           map e_trackId es = map trackId ss \<and>
           map missing es = map (\<lambda>s. audio (audioFile s) = None) ss \<and>
           entries_chain (global_offset st) es (global_offset st')"
  using assms
proof (induction ss arbitrary: st)
  case Nil
  then show ?case by simp
next
  case (Cons s ss)
  from Cons.prems obtain st1 where
    p: "process_song resume agglo audio s st = Inr st1"
    and r: "run_songs resume agglo audio ss st1 = Inr st'"
    by (auto simp: bnd_eq_Inr)
  from process_song_entry [OF p] obtain e where
    e: "timeline_tracks st1 = timeline_tracks st @ [e]" "e_trackId e = trackId s"
      "missing e = (audio (audioFile s) = None)"
      "entries_chain (global_offset st) [e] (global_offset st1)"
    by (elim exE conjE)
  from Cons.IH [OF r] obtain es where
    es: "timeline_tracks st' = timeline_tracks st1 @ es" "map e_trackId es = map trackId ss"
      "map missing es = map (\<lambda>s. audio (audioFile s) = None) ss"
      "entries_chain (global_offset st1) es (global_offset st')"
    by (elim exE conjE)
  have "entries_chain (global_offset st) ([e] @ es) (global_offset st')"
    unfolding entries_chain_append using e(4) es(4) by (intro exI [of _ "global_offset st1"] conjI)
  then have c: "entries_chain (global_offset st) (e # es) (global_offset st')"
    by (simp only: append_Cons append_Nil)
  have t: "timeline_tracks st' = timeline_tracks st @ e # es" using e(1) es(1) by simp
  have i: "map e_trackId (e # es) = map trackId (s # ss)" using e(2) es(2) by simp
  have m: "map missing (e # es) = map (\<lambda>s. audio (audioFile s) = None) (s # ss)"
    using e(3) es(3) by simp
  show ?case
    using t i m c by (intro exI [of _ "e # es"] conjI)
qed

lemma example_long_shapes: "librosa_shapes example_long"
  using example_shapes by (simp add: librosa_shapes_def example_long_def)

lemma example_long_n_frames_of: "n_frames_of (y_len example_long) = 600"
  by (simp add: example_long_def n_frames_of_def SR_def FPS_def)

lemma example_analysis:
  "\<exists>out. analyze_audio chain_clusterer p example_track = Inr out \<and>
         totalFrames (meta out) = 301 \<and> duration (meta out) = 10"
proof -
  obtain out where out: "analyze_audio chain_clusterer p example_track = Inr out"
    using example_returns by blast
  from analyze_audio_meta [OF example_shapes out] analyze_audio_frames [OF out]
  have "totalFrames (meta out) = 301"
    and "duration (meta out) = py_round (real (y_len example_track) / real SR) 2"
    by (simp_all add: example_n_frames_of)
  then have "totalFrames (meta out) = 301 \<and> duration (meta out) = 10"
    by (simp add: example_track_def SR_def py_round_def round_half_even_def Let_def)
  with out show ?thesis by blast
qed

lemma example_long_analysis:
  "\<exists>out. analyze_audio chain_clusterer p example_long = Inr out \<and>
         totalFrames (meta out) = 600 \<and> duration (meta out) = 20"
proof -
  have "\<exists>out. analyze_audio chain_clusterer p example_long = Inr out"
    by (rule analyze_audio_ok [OF example_long_shapes chain_clusterer_length])
       (simp add: example_long_n_frames_of seg_hop_def FPS_def)
  then obtain out where out: "analyze_audio chain_clusterer p example_long = Inr out" ..
  from analyze_audio_meta [OF example_long_shapes out] analyze_audio_frames [OF out]
  have "totalFrames (meta out) = 600"
    and "duration (meta out) = py_round (real (y_len example_long) / real SR) 2"
    by (simp_all add: example_long_n_frames_of)
  then have "totalFrames (meta out) = 600 \<and> duration (meta out) = 20"
    by (simp add: example_long_def example_track_def SR_def py_round_def round_half_even_def Let_def)
  with out show ?thesis by blast
qed

lemma example_main:
  assumes "analyze_audio chain_clusterer ''t1.mp3'' example_track = Inr out1"
    and "totalFrames (meta out1) = 301" and "duration (meta out1) = 10"
    and "analyze_audio chain_clusterer ''t3.mp3'' example_long = Inr out2"
    and "totalFrames (meta out2) = 600" and "duration (meta out2) = 20"
  shows "main False chain_clusterer example_audio F example_setlist =
     Inr (\<lparr>tl_date = ''1977-05-08'', tl_totalFrames = 901, totalDuration = 30,
            tracks =
              [\<lparr>e_trackId = ''s1t01'', globalFrameStart = 0, globalFrameEnd = 301,
                e_totalFrames = 301, missing = False\<rparr>,
               \<lparr>e_trackId = ''s1t02'', globalFrameStart = 301, globalFrameEnd = 301,
                e_totalFrames = 0, missing = True\<rparr>,
               \<lparr>e_trackId = ''s1t03'', globalFrameStart = 301, globalFrameEnd = 901,
                e_totalFrames = 600, missing = False\<rparr>]\<rparr>,
          F(''s1t01-analysis.json'' \<mapsto> out1, ''s1t03-analysis.json'' \<mapsto> out2),
          [ANALYZING ''s1t01'', SKIP ''t2.mp3'', ANALYZING ''s1t03''])"
  using assms
  by (simp add: main_def example_setlist_def process_song_def analyze_track_def Let_def
      example_audio_def output_path_of_def initial_state_def)
     (simp add: py_round_def round_half_even_def Let_def)

end
